theory Spec2Isabelle
  imports Complex_Main "HOL-Library.AList" "HOL-Library.Multiset"
begin

section \<open>Strings\<close>

text \<open>
  A JavaScript string is modelled as a \<open>string\<close>: one \<open>char\<close> per UTF-16 code unit, for
  text whose code units are below 256. \<open>startsWith\<close>, \<open>trim\<close>, \<open>toLowerCase\<close> and the two
  uses of \<open>split\<close> are the string methods the repository calls. \<open>isSpace\<close> is the white
  space of \<open>trim\<close> and of \<open>\s\<close> in that range: the space, the five control characters from
  tab to carriage return, and the no-break space.
\<close>

definition startsWith :: "string \<Rightarrow> string \<Rightarrow> bool" where
  "startsWith s p = (take (length p) s = p)"

definition isSpace :: "char \<Rightarrow> bool" where
  "isSpace c = (c \<in> {CHR '' '', CHR 0x09, CHR 0x0A, CHR 0x0B, CHR 0x0C, CHR 0x0D, CHR 0xA0})"

definition trim :: "string \<Rightarrow> string" where
  "trim s = rev (dropWhile isSpace (rev (dropWhile isSpace s)))"

definition lowerChar :: "char \<Rightarrow> char" where
  "lowerChar c =
     (let n = (of_char c :: nat) in if 65 \<le> n \<and> n \<le> 90 then char_of (n + 32) else c)"

definition toLowerCase :: "string \<Rightarrow> string" where
  "toLowerCase s = map lowerChar s"

text \<open>\<open>s.split(c)\<close> for a one-character separator \<open>c\<close>.\<close>

fun split_char :: "char \<Rightarrow> string \<Rightarrow> string list" where
  "split_char c [] = [[]]"
| "split_char c (x # xs) =
     (if x = c then [] # split_char c xs
      else (x # hd (split_char c xs)) # tl (split_char c xs))"

text \<open>
  \<open>s.split(/\s+/)\<close>: the flag says whether the character before was white space, so that a
  run of white space separates two words once.
\<close>

fun split_ws_from :: "bool \<Rightarrow> string \<Rightarrow> string list" where
  "split_ws_from b [] = [[]]"
| "split_ws_from b (x # xs) =
     (if isSpace x then (if b then split_ws_from True xs else [] # split_ws_from True xs)
      else (x # hd (split_ws_from False xs)) # tl (split_ws_from False xs))"

definition split_ws :: "string \<Rightarrow> string list" where
  "split_ws s = split_ws_from False s"

text \<open>The digits of \<open>String(n)\<close> for a natural number.\<close>

fun digits :: "nat \<Rightarrow> string" where
  "digits n =
     (if n < 10 then [char_of (48 + n)] else digits (n div 10) @ [char_of (48 + n mod 10)])"

declare digits.simps [simp del]

section \<open>Data model (types.ts)\<close>

text \<open>
  \<open>DocumentChunk.metadata\<close>; \<open>page\<close> is optional, and \<open>startIndex\<close> is an \<open>indexOf\<close>
  result, \<open>-1\<close> when the text is not found. The optional \<open>embedding\<close> of a
  \<open>DocumentChunk\<close> is left out: the store overwrites it on insertion and never copies it
  into a result.
\<close>

record Metadata =
  source :: string
  page :: "nat option"
  startIndex :: int
  endIndex :: int

record DocumentChunk =
  id' :: string
  content :: string
  metadata :: Metadata

text \<open>
  \<open>Partial<RAGConfig>\<close>: every field may be absent. \<open>temperature\<close> is a real number; the
  four counts are integers.
\<close>

record PartialRAGConfig =
  groqApiKey :: "string option"
  model :: "string option"
  temperature :: "real option"
  maxTokens :: "int option"
  topK :: "int option"
  chunkSize :: "int option"
  chunkOverlap :: "int option"

section \<open>Configuration (config.ts)\<close>

text \<open>
  \<open>config.x && cond\<close> holds when \<open>x\<close> is present, is not \<open>0\<close>, and \<open>cond\<close> holds: \<open>0\<close> and
  \<open>undefined\<close> are falsy. Each check pushes its message; the list is returned whole.
\<close>

definition validateConfig :: "PartialRAGConfig \<Rightarrow> string list" where
  "validateConfig config =
     (case groqApiKey config of
        None \<Rightarrow> [''Groq API key is required'']
      | Some key \<Rightarrow> if trim key = [] then [''Groq API key is required''] else [])
     @ (case temperature config of
          None \<Rightarrow> []
        | Some t \<Rightarrow>
            if t \<noteq> 0 \<and> (t < 0 \<or> t > 1) then [''Temperature must be between 0 and 1'']
            else [])
     @ (case maxTokens config of
          None \<Rightarrow> []
        | Some n \<Rightarrow> if n \<noteq> 0 \<and> n < 1 then [''Max tokens must be greater than 0''] else [])
     @ (case topK config of
          None \<Rightarrow> []
        | Some n \<Rightarrow> if n \<noteq> 0 \<and> n < 1 then [''Top K must be greater than 0''] else [])
     @ (case chunkSize config of
          None \<Rightarrow> []
        | Some n \<Rightarrow>
            if n \<noteq> 0 \<and> n < 100 then [''Chunk size must be at least 100 characters'']
            else [])"

section \<open>Numbers\<close>

text \<open>
  The embedding arithmetic runs on JavaScript numbers. A \<open>number\<close> is a real number,
  \<open>NaN\<close>, or an infinity (\<open>Inf True\<close> is \<open>+Infinity\<close>): the program divides by
  \<open>text.length\<close>, which is \<open>0\<close> for the empty text, and \<open>0/0\<close> is \<open>NaN\<close> there, not an error.
  Rounding and the sign of zero are not modelled: finite arithmetic is exact.
\<close>

datatype number = NaN | Inf bool | Num real

fun num_add :: "number \<Rightarrow> number \<Rightarrow> number" where
  "num_add (Num a) (Num b) = Num (a + b)"
| "num_add (Num a) (Inf s) = Inf s"
| "num_add (Inf s) (Num b) = Inf s"
| "num_add (Inf s) (Inf t) = (if s = t then Inf s else NaN)"
| "num_add _ _ = NaN"

fun num_neg :: "number \<Rightarrow> number" where
  "num_neg (Num a) = Num (- a)"
| "num_neg (Inf s) = Inf (\<not> s)"
| "num_neg NaN = NaN"

definition num_sub :: "number \<Rightarrow> number \<Rightarrow> number" where
  "num_sub a b = num_add a (num_neg b)"

fun num_mul :: "number \<Rightarrow> number \<Rightarrow> number" where
  "num_mul (Num a) (Num b) = Num (a * b)"
| "num_mul (Num a) (Inf s) = (if a = 0 then NaN else Inf (s = (0 < a)))"
| "num_mul (Inf s) (Num b) = (if b = 0 then NaN else Inf (s = (0 < b)))"
| "num_mul (Inf s) (Inf t) = Inf (s = t)"
| "num_mul _ _ = NaN"

fun num_div :: "number \<Rightarrow> number \<Rightarrow> number" where
  "num_div (Num a) (Num b) =
     (if b \<noteq> 0 then Num (a / b) else if a = 0 then NaN else Inf (0 < a))"
| "num_div (Num a) (Inf s) = Num 0"
| "num_div (Inf s) (Num b) = Inf (s = (0 \<le> b))"
| "num_div _ _ = NaN"

fun num_sqrt :: "number \<Rightarrow> number" where
  "num_sqrt (Num a) = (if a < 0 then NaN else Num (sqrt a))"
| "num_sqrt (Inf s) = (if s then Inf True else NaN)"
| "num_sqrt NaN = NaN"

text \<open>\<open>a > b\<close> and \<open>a === 0\<close>; every comparison with \<open>NaN\<close> is false.\<close>

fun num_gt :: "number \<Rightarrow> number \<Rightarrow> bool" where
  "num_gt (Num a) (Num b) = (a > b)"
| "num_gt (Inf s) (Num b) = s"
| "num_gt (Num a) (Inf t) = (\<not> t)"
| "num_gt (Inf s) (Inf t) = (s \<and> \<not> t)"
| "num_gt _ _ = False"

definition is_zero :: "number \<Rightarrow> bool" where
  "is_zero a = (a = Num 0)"

text \<open>\<open>x || 0\<close>: \<open>0\<close> and \<open>NaN\<close> are falsy.\<close>

definition or_zero :: "number \<Rightarrow> number" where
  "or_zero a = (if a = NaN \<or> a = Num 0 then Num 0 else a)"

section \<open>The in-memory vector store (vector-store.ts)\<close>

text \<open>
  An entry of the \<open>documents\<close> map: the chunk's fields and its embedding. The map keeps
  its keys in insertion order, so it is an association list: \<open>set\<close> replaces the entry
  of a key it has, in place, and appends a new key; \<open>delete\<close> removes the key's entry.
\<close>

record StoredChunk = DocumentChunk +
  embedding :: "number list"

type_synonym documents = "(string \<times> StoredChunk) list"

definition map_set :: "'k \<Rightarrow> 'v \<Rightarrow> ('k \<times> 'v) list \<Rightarrow> ('k \<times> 'v) list" where
  "map_set k v m = AList.update k v m"

definition map_delete :: "'k \<Rightarrow> ('k \<times> 'v) list \<Rightarrow> ('k \<times> 'v) list" where
  "map_delete k m = AList.delete k m"

text \<open>
  \<open>delete(documentId)\<close>: the keys that start with \<open>documentId\<close> are collected first, then
  deleted one by one.
\<close>

definition delete :: "string \<Rightarrow> documents \<Rightarrow> documents" where
  "delete documentId docs =
     (let keysToDelete = filter (\<lambda>key. startsWith key documentId) (map fst docs)
      in foldl (\<lambda>m key. map_delete key m) docs keysToDelete)"

definition clear :: "documents \<Rightarrow> documents" where
  "clear docs = []"

definition chunk_of :: "StoredChunk \<Rightarrow> DocumentChunk" where
  "chunk_of doc = \<lparr>id' = id' doc, content = content doc, metadata = metadata doc\<rparr>"

definition getAllChunks :: "documents \<Rightarrow> DocumentChunk list" where
  "getAllChunks docs = map (\<lambda>doc. chunk_of doc) (map snd docs)"

subsection \<open>createSimpleEmbedding\<close>

definition chars :: string where
  "chars = ''abcdefghijklmnopqrstuvwxyz0123456789 ''"

definition punctuation :: string where
  "punctuation = ''.!?,:;-()[]{}''"

text \<open>\<open>s.split(c).length - 1\<close>: how often the character \<open>c\<close> occurs in \<open>s\<close>.\<close>

definition occurrences :: "string \<Rightarrow> char \<Rightarrow> nat" where
  "occurrences s c = length (split_char c s) - 1"

text \<open>
  The \<open>bigrams\<close> map: for every position but the last, the two characters from there, in
  lower case, counted; the keys stay in the order of their first occurrence.
\<close>

definition bigramCounts :: "string \<Rightarrow> (string \<times> nat) list" where
  "bigramCounts text =
     foldl (\<lambda>bigrams i.
              let bigram = toLowerCase (take 2 (drop i text))
              in map_set bigram ((case map_of bigrams bigram of None \<Rightarrow> 0 | Some n \<Rightarrow> n) + 1)
                   bigrams)
       [] [0..<length text - 1]"

text \<open>
  The 384 entries are written in the order of the source: character frequencies at
  \<open>0..36\<close>, the first 100 bigram frequencies from 37 on, the word features at 300 and 301,
  the punctuation frequencies from 302 on. Every write is inside the array.
\<close>

definition createSimpleEmbedding :: "string \<Rightarrow> number list" where
  "createSimpleEmbedding text =
     (let len = Num (real (length text));
          e0 = replicate 384 (Num 0);
          e1 = foldl (\<lambda>e i. e[i := num_div (Num (real (occurrences (toLowerCase text)
                                                           (chars ! i)))) len])
                 e0 [0..<length chars];
          e2 = fst (foldl (\<lambda>(e, idx) (bigram, count).
                             if idx < length e
                             then (e[idx := num_div (Num (real count)) len], idx + 1)
                             else (e, idx))
                      (e1, length chars) (take 100 (bigramCounts text)));
          words = split_ws text;
          avgWordLength = or_zero (num_div (Num (real (sum_list (map length words))))
                                     (Num (real (length words))));
          e3 = e2[300 := num_div avgWordLength (Num 20)];
          e4 = e3[301 := num_div (Num (real (length words))) len];
          e5 = foldl (\<lambda>e i. e[302 + i := num_div (Num (real (occurrences text
                                                                 (punctuation ! i)))) len])
                 e4 (takeWhile (\<lambda>i. 302 + i < length e4) [0..<length punctuation])
      in e5)"

subsection \<open>cosineSimilarity\<close>

text \<open>\<open>b[i]\<close>: past the end of \<open>b\<close> it is \<open>undefined\<close>, which is \<open>NaN\<close> in arithmetic.\<close>

definition at_index :: "number list \<Rightarrow> nat \<Rightarrow> number" where
  "at_index b i = (if i < length b then b ! i else NaN)"

definition dot_product :: "number list \<Rightarrow> number list \<Rightarrow> number" where
  "dot_product a b =
     foldl (\<lambda>sum (val, i). num_add sum (num_mul val (at_index b i))) (Num 0)
       (zip a [0..<length a])"

definition sum_squares :: "number list \<Rightarrow> number" where
  "sum_squares a = foldl (\<lambda>sum val. num_add sum (num_mul val val)) (Num 0) a"

definition cosineSimilarity :: "number list \<Rightarrow> number list \<Rightarrow> number" where
  "cosineSimilarity a b =
     (let dotProduct = dot_product a b;
          magnitudeA = num_sqrt (sum_squares a);
          magnitudeB = num_sqrt (sum_squares b)
      in if is_zero magnitudeA \<or> is_zero magnitudeB then Num 0
         else num_div dotProduct (num_mul magnitudeA magnitudeB))"

subsection \<open>addDocuments\<close>

text \<open>
  A call that may throw returns \<open>Inl message\<close> for an error thrown with that message
  (\<open>Unknown error\<close> for a thrown value that is not an \<open>Error\<close>) and \<open>Inr\<close> for its result.

  \<open>addDocuments\<close> computes each chunk's embedding inside a \<open>try\<close>; the \<open>catch\<close> writes the
  chunk id to the console and throws, which ends the loop. \<open>createSimpleEmbedding\<close> is
  total on strings, so the \<open>catch\<close> runs only when the embedding computation itself
  throws: \<open>addDocuments_with\<close> takes that computation, with its failure, as a parameter,
  and returns the outcome, the store and the console lines. \<open>stored chunk e\<close> is the
  entry \<open>{...chunk, embedding}\<close>.
\<close>

definition stored :: "DocumentChunk \<Rightarrow> number list \<Rightarrow> StoredChunk" where
  "stored chunk e =
     \<lparr>id' = id' chunk, content = content chunk, metadata = metadata chunk, embedding = e\<rparr>"

fun addDocuments_with ::
  "(string \<Rightarrow> string + number list) \<Rightarrow> DocumentChunk list \<Rightarrow> documents
   \<Rightarrow> (string + unit) \<times> documents \<times> string list" where
  "addDocuments_with embedFn [] docs = (Inr (), docs, [])"
| "addDocuments_with embedFn (chunk # chunks) docs =
     (case embedFn (content chunk) of
        Inr e \<Rightarrow>
          addDocuments_with embedFn chunks (map_set (id' chunk) (stored chunk e) docs)
      | Inl message \<Rightarrow>
          (Inl (''Failed to add chunk: '' @ message), docs,
           [''Error adding chunk '' @ id' chunk @ '':'']))"

definition addDocuments ::
  "DocumentChunk list \<Rightarrow> documents \<Rightarrow> (string + unit) \<times> documents \<times> string list" where
  "addDocuments chunks docs =
     addDocuments_with (\<lambda>text. Inr (createSimpleEmbedding text)) chunks docs"

subsection \<open>similaritySearch\<close>

text \<open>
  \<open>Array.prototype.sort\<close> with a comparator: a positive result puts the second argument
  first, and a result that is \<open>NaN\<close> counts as \<open>0\<close>. The sort is stable, and for a
  consistent comparator its result is the stable insertion sort below. ECMAScript
  leaves the order to the implementation when the comparator is not consistent, which
  here means a \<open>NaN\<close> score among finite ones.
\<close>

fun insert_by :: "('a \<Rightarrow> 'a \<Rightarrow> number) \<Rightarrow> 'a \<Rightarrow> 'a list \<Rightarrow> 'a list" where
  "insert_by cmp x [] = [x]"
| "insert_by cmp x (y # ys) =
     (if num_gt (cmp x y) (Num 0) then y # insert_by cmp x ys else x # y # ys)"

definition js_sort :: "('a \<Rightarrow> 'a \<Rightarrow> number) \<Rightarrow> 'a list \<Rightarrow> 'a list" where
  "js_sort cmp xs = foldr (insert_by cmp) xs []"

text \<open>\<open>xs.slice(0, k)\<close> for an integer \<open>k\<close>: a negative \<open>k\<close> counts from the end.\<close>

definition slice0 :: "int \<Rightarrow> 'a list \<Rightarrow> 'a list" where
  "slice0 k xs = (if k < 0 then take (length xs - nat (- k)) xs else take (nat k) xs)"

text \<open>\<open>xs.slice(-n)\<close> for \<open>n > 0\<close>: the last \<open>n\<close> elements.\<close>

definition slice_last :: "nat \<Rightarrow> 'a list \<Rightarrow> 'a list" where
  "slice_last n xs = drop (length xs - n) xs"

definition by_similarity :: "DocumentChunk \<times> number \<Rightarrow> DocumentChunk \<times> number \<Rightarrow> number" where
  "by_similarity a b = num_sub (snd b) (snd a)"

definition similarities :: "documents \<Rightarrow> string \<Rightarrow> (DocumentChunk \<times> number) list" where
  "similarities docs q =
     (let queryEmbedding = createSimpleEmbedding q
      in map (\<lambda>doc. (chunk_of doc, cosineSimilarity queryEmbedding (embedding doc)))
           (map snd docs))"

text \<open>
  The chain \<open>sort\<close>, \<open>slice(0, k)\<close>, \<open>filter\<close> of \<open>similaritySearch\<close>, before the final
  \<open>map\<close> that drops the scores.
\<close>

definition relevant :: "DocumentChunk \<times> number \<Rightarrow> bool" where
  "relevant item = num_gt (snd item) (Num (1 / 10))"

definition ranked :: "documents \<Rightarrow> string \<Rightarrow> int \<Rightarrow> (DocumentChunk \<times> number) list" where
  "ranked docs q k =
     filter (\<lambda>item. relevant item) (slice0 k (js_sort by_similarity (similarities docs q)))"

definition similaritySearch :: "documents \<Rightarrow> string \<Rightarrow> int \<Rightarrow> DocumentChunk list" where
  "similaritySearch docs q k =
     (if length docs = 0 then [] else map fst (ranked docs q k))"

section \<open>Prompts (prompts.ts)\<close>

fun join :: "string \<Rightarrow> string list \<Rightarrow> string" where
  "join sep [] = []"
| "join sep [x] = x"
| "join sep (x # y # ys) = x @ sep @ join sep (y # ys)"

definition formatContextChunks :: "DocumentChunk list \<Rightarrow> string" where
  "formatContextChunks chunks =
     join ''\<newline>---\<newline>\<newline>''
       (map (\<lambda>(chunk, index).
               let src = (if source (metadata chunk) = [] then ''Unknown''
                          else source (metadata chunk));
                   pg = (case page (metadata chunk) of
                           None \<Rightarrow> []
                         | Some n \<Rightarrow> if n = 0 then [] else '' (Page '' @ digits n @ '')'')
               in ''[Source '' @ digits (index + 1) @ '': '' @ src @ pg @ '']\<newline>''
                  @ content chunk @ ''\<newline>'')
          (zip chunks [0..<length chunks]))"

text \<open>\<open>RAG_PROMPT_TEMPLATE.format({context, question})\<close>.\<close>

definition RAG_PROMPT_TEMPLATE :: "string \<Rightarrow> string \<Rightarrow> string" where
  "RAG_PROMPT_TEMPLATE ctx question =
     ''\<newline>You are a helpful AI assistant that answers questions based on the provided context. \<newline>''
     @ ''Follow these guidelines:\<newline>\<newline>''
     @ ''1. Use ONLY the information from the provided context to answer questions\<newline>''
     @ ''2. If the context doesn't contain enough information, clearly state this limitation\<newline>''
     @ ''3. Provide specific, accurate, and helpful answers\<newline>''
     @ ''4. Cite relevant parts of the context when possible\<newline>''
     @ ''5. If asked about something not in the context, politely explain you can only answer based on the provided documents\<newline>\<newline>''
     @ ''Context:\<newline>'' @ ctx @ ''\<newline>\<newline>''
     @ ''Question: '' @ question @ ''\<newline>\<newline>''
     @ ''Answer: Let me help you based on the information provided in the documents.\<newline>''"

definition createConversationPrompt ::
  "string \<Rightarrow> string \<Rightarrow> (string \<times> string) list \<Rightarrow> string" where
  "createConversationPrompt question ctx conversationHistory =
     (if length conversationHistory > 0
      then ''Previous conversation:\<newline>''
           @ concat (map (\<lambda>(q, a). ''Q: '' @ q @ ''\<newline>A: '' @ a @ ''\<newline>\<newline>'')
                       (slice_last 3 conversationHistory))
           @ ''---\<newline>\<newline>''
      else [])
     @ RAG_PROMPT_TEMPLATE ctx question"

section \<open>The pipeline (rag-pipeline.ts)\<close>

record RAGQuery =
  query_id :: string
  question :: string
  context' :: "string list"
  answer :: string
  timestamp :: nat
  sources :: "string list"

text \<open>
  The state of a \<open>RAGPipeline\<close>: its vector store (of any implementation, with state
  \<open>'s\<close>), the \<open>topK\<close> of its configuration, and the conversation history, a list of
  (question, answer) pairs.
\<close>

record 's RAGPipeline =
  vectorStore :: 's
  config_topK :: int
  conversationHistory :: "(string \<times> string) list"

text \<open>
  What a call reads from outside the pipeline's own state: the methods of the
  \<open>VectorStore\<close> interface (\<open>clear\<close> is optional), the \<open>LLMProvider\<close> (\<open>generate\<close> returns an
  answer or throws; \<open>stream\<close> yields fragments and then ends or throws), the fresh query
  id and the clock.
\<close>

record 's Collaborators =
  vs_similaritySearch :: "'s \<Rightarrow> string \<Rightarrow> int \<Rightarrow> string + DocumentChunk list"
  vs_clear :: "('s \<Rightarrow> 's) option"
  llm_generate :: "string \<Rightarrow> string + string"
  llm_stream :: "string \<Rightarrow> string list \<times> string option"
  new_queryId :: string
  new_Date :: nat

text \<open>The \<open>InMemoryVectorStore\<close> as the pipeline sees it; its search never throws.\<close>

definition inMemory_similaritySearch ::
  "documents \<Rightarrow> string \<Rightarrow> int \<Rightarrow> string + DocumentChunk list" where
  "inMemory_similaritySearch docs q k = Inr (similaritySearch docs q k)"

definition newPipeline :: "'s \<Rightarrow> int \<Rightarrow> 's RAGPipeline" where
  "newPipeline store k = \<lparr>vectorStore = store, config_topK = k, conversationHistory = []\<rparr>"

definition retrieveContext :: "'s Collaborators \<Rightarrow> 's RAGPipeline \<Rightarrow> string \<Rightarrow> DocumentChunk list" where
  "retrieveContext env p q =
     (case vs_similaritySearch env (vectorStore p) q (config_topK p) of
        Inr chunks \<Rightarrow> chunks
      | Inl message \<Rightarrow> [])"

text \<open>\<open>[...new Set(xs)]\<close>: the first occurrence of every element, in order.\<close>

definition unique :: "'a list \<Rightarrow> 'a list" where
  "unique xs = foldl (\<lambda>seen x. if x \<in> set seen then seen else seen @ [x]) [] xs"

text \<open>\<open>push\<close>, then keep the last five when there are more.\<close>

definition remember :: "string \<Rightarrow> string \<Rightarrow> (string \<times> string) list \<Rightarrow> (string \<times> string) list" where
  "remember q ans history =
     (let pushed = history @ [(q, ans)]
      in if length pushed > 5 then slice_last 5 pushed else pushed)"

definition fallback_answer :: string where
  "fallback_answer = ''I don't have any relevant information in my knowledge base to answer your question. Please try uploading relevant documents first.''"

definition stream_fallback_answer :: string where
  "stream_fallback_answer = ''I don't have any relevant information in my knowledge base to answer your question.''"

definition result_of ::
  "'s Collaborators \<Rightarrow> string \<Rightarrow> DocumentChunk list \<Rightarrow> string \<Rightarrow> RAGQuery" where
  "result_of env q relevantChunks ans =
     \<lparr>query_id = new_queryId env, question = q,
      context' = map content relevantChunks, answer = ans, timestamp = new_Date env,
      sources = unique (map (\<lambda>chunk. source (metadata chunk)) relevantChunks)\<rparr>"

definition query ::
  "'s Collaborators \<Rightarrow> string \<Rightarrow> 's RAGPipeline \<Rightarrow> (string + RAGQuery) \<times> 's RAGPipeline" where
  "query env q p =
     (let relevantChunks = retrieveContext env p q
      in if length relevantChunks = 0
         then (Inr \<lparr>query_id = new_queryId env, question = q, context' = [],
                    answer = fallback_answer, timestamp = new_Date env, sources = []\<rparr>, p)
         else
           let formattedContext = formatContextChunks relevantChunks;
               prompt = createConversationPrompt q formattedContext (conversationHistory p)
           in case llm_generate env prompt of
                Inl message \<Rightarrow> (Inl (''Query failed: '' @ message), p)
              | Inr ans \<Rightarrow>
                  (Inr (result_of env q relevantChunks ans),
                   p\<lparr>conversationHistory := remember q ans (conversationHistory p)\<rparr>))"

subsection \<open>streamQuery\<close>

text \<open>
  \<open>streamQuery\<close> is an async generator: its body runs only while the consumer waits on
  \<open>next()\<close>, from one \<open>yield\<close> to the following one. \<open>gen_state\<close> is where the body is
  suspended, with the local variables that are live there; \<open>next_step\<close> is one call of
  \<open>next()\<close>, on the pipeline as it is at that moment. A consumer that stops calls no
  further \<open>next()\<close>: the body stays where it is (\<open>return()\<close> completes the generator there,
  and the body has no \<open>finally\<close>).
\<close>

datatype yield_type = TContext | TAnswer

datatype gen_out = Yield yield_type string | Return RAGQuery | Throw string | Completed

datatype gen_state =
    GStart
  | GSearching
  | GFallback RAGQuery
  | GFound "DocumentChunk list"
  | GStreaming "DocumentChunk list" string "string list" "string option"
  | GDone

text \<open>
  The \<open>for await\<close> loop over \<open>llmProvider.stream(prompt)\<close>, asked for its next fragment:
  a fragment is added to \<open>fullAnswer\<close> and yielded; a failure of the stream is caught and
  thrown again; at the end of the stream the result is built, the exchange is added to
  the history, and the result is returned.
\<close>

fun stream_loop ::
  "'s Collaborators \<Rightarrow> string \<Rightarrow> DocumentChunk list \<Rightarrow> string \<Rightarrow> string list \<Rightarrow> string option
   \<Rightarrow> 's RAGPipeline \<Rightarrow> gen_out \<times> gen_state \<times> 's RAGPipeline" where
  "stream_loop env q relevantChunks fullAnswer (fragment # rest) failure p =
     (Yield TAnswer fragment,
      GStreaming relevantChunks (fullAnswer @ fragment) rest failure, p)"
| "stream_loop env q relevantChunks fullAnswer [] (Some message) p =
     (Throw (''Stream query failed: '' @ message), GDone, p)"
| "stream_loop env q relevantChunks fullAnswer [] None p =
     (Return (result_of env q relevantChunks fullAnswer), GDone,
      p\<lparr>conversationHistory := remember q fullAnswer (conversationHistory p)\<rparr>)"

fun next_step ::
  "'s Collaborators \<Rightarrow> string \<Rightarrow> gen_state \<times> 's RAGPipeline
   \<Rightarrow> gen_out \<times> gen_state \<times> 's RAGPipeline" where
  "next_step env q (GStart, p) = (Yield TContext ''Searching knowledge base...'', GSearching, p)"
| "next_step env q (GSearching, p) =
     (let relevantChunks = retrieveContext env p q
      in if length relevantChunks = 0
         then
           let result = \<lparr>query_id = new_queryId env, question = q, context' = [],
                         answer = stream_fallback_answer, timestamp = new_Date env,
                         sources = []\<rparr>
           in (Yield TAnswer (answer result), GFallback result, p)
         else (Yield TContext (''Found '' @ digits (length relevantChunks)
                                @ '' relevant document(s). Generating response...''),
               GFound relevantChunks, p))"
| "next_step env q (GFallback result, p) = (Return result, GDone, p)"
| "next_step env q (GFound relevantChunks, p) =
     (let formattedContext = formatContextChunks relevantChunks;
          prompt = createConversationPrompt q formattedContext (conversationHistory p)
      in stream_loop env q relevantChunks [] (fst (llm_stream env prompt))
           (snd (llm_stream env prompt)) p)"
| "next_step env q (GStreaming relevantChunks fullAnswer rest failure, p) =
     stream_loop env q relevantChunks fullAnswer rest failure p"
| "next_step env q (GDone, p) = (Completed, GDone, p)"

text \<open>A consumer that calls \<open>next()\<close> \<open>n\<close> times and then stops.\<close>

fun pulls ::
  "'s Collaborators \<Rightarrow> string \<Rightarrow> nat \<Rightarrow> gen_state \<times> 's RAGPipeline
   \<Rightarrow> gen_out list \<times> gen_state \<times> 's RAGPipeline" where
  "pulls env q 0 (g, p) = ([], g, p)"
| "pulls env q (Suc n) (g, p) =
     (case next_step env q (g, p) of
        (out, g', p') \<Rightarrow>
          (case pulls env q n (g', p') of (outs, g'', p'') \<Rightarrow> (out # outs, g'', p'')))"

definition streamQuery ::
  "'s Collaborators \<Rightarrow> string \<Rightarrow> nat \<Rightarrow> 's RAGPipeline
   \<Rightarrow> gen_out list \<times> gen_state \<times> 's RAGPipeline" where
  "streamQuery env q n p = pulls env q n (GStart, p)"

subsection \<open>The other operations on the history\<close>

definition clearHistory :: "'s RAGPipeline \<Rightarrow> 's RAGPipeline" where
  "clearHistory p = p\<lparr>conversationHistory := []\<rparr>"

definition clearKnowledgeBase :: "'s Collaborators \<Rightarrow> 's RAGPipeline \<Rightarrow> 's RAGPipeline" where
  "clearKnowledgeBase env p =
     p\<lparr>vectorStore := (case vs_clear env of None \<Rightarrow> vectorStore p | Some f \<Rightarrow> f (vectorStore p)),
       conversationHistory := []\<rparr>"

text \<open>
  A call of one of the four operations; a \<open>streamQuery\<close> comes with the number of
  \<open>next()\<close> calls its consumer makes before it stops.
\<close>

datatype operation =
    Query string
  | StreamQuery string nat
  | ClearHistory
  | ClearKnowledgeBase

fun exec :: "'s Collaborators \<times> operation \<Rightarrow> 's RAGPipeline \<Rightarrow> 's RAGPipeline" where
  "exec (env, Query q) p = snd (query env q p)"
| "exec (env, StreamQuery q n) p = snd (snd (streamQuery env q n p))"
| "exec (env, ClearHistory) p = clearHistory p"
| "exec (env, ClearKnowledgeBase) p = clearKnowledgeBase env p"

definition run :: "('s Collaborators \<times> operation) list \<Rightarrow> 's RAGPipeline \<Rightarrow> 's RAGPipeline" where
  "run calls p = foldl (\<lambda>p call. exec call p) p calls"

section \<open>Notions used in the statements\<close>

text \<open>The history respects its capacity.\<close>

definition bounded :: "'s RAGPipeline \<Rightarrow> bool" where
  "bounded p = (length (conversationHistory p) \<le> 5)"

text \<open>The answer fragments among the values a consumer has received.\<close>

definition answers :: "gen_out list \<Rightarrow> string list" where
  "answers outs = concat (map (\<lambda>out. case out of Yield TAnswer s \<Rightarrow> [s] | _ \<Rightarrow> []) outs)"

text \<open>The prompt that a call with question \<open>q\<close> sends to the provider.\<close>

definition prompt_of :: "'s Collaborators \<Rightarrow> string \<Rightarrow> 's RAGPipeline \<Rightarrow> string" where
  "prompt_of env q p =
     createConversationPrompt q (formatContextChunks (retrieveContext env p q))
       (conversationHistory p)"

text \<open>The result of \<open>query\<close> when no chunk was retrieved.\<close>

definition fallback_result :: "'s Collaborators \<Rightarrow> string \<Rightarrow> RAGQuery" where
  "fallback_result env q =
     \<lparr>query_id = new_queryId env, question = q, context' = [], answer = fallback_answer,
      timestamp = new_Date env, sources = []\<rparr>"

text \<open>The results among the values a consumer has received.\<close>

definition returned :: "gen_out list \<Rightarrow> RAGQuery list" where
  "returned outs = concat (map (\<lambda>out. case out of Return r \<Rightarrow> [r] | _ \<Rightarrow> []) outs)"

text \<open>The question of a call.\<close>

fun asked :: "'s Collaborators \<times> operation \<Rightarrow> string" where
  "asked (env, Query q) = q"
| "asked (env, StreamQuery q n) = q"
| "asked (env, ClearHistory) = []"
| "asked (env, ClearKnowledgeBase) = []"

text \<open>
  The result that a call returns to its caller when it was answered from retrieved
  chunks: the result of \<open>query\<close>, or the one that the consumer of \<open>streamQuery\<close> received,
  with a context that is not empty. The fallback result, an error and a stream that was
  not read to its end give none.
\<close>

fun call_result :: "'s Collaborators \<times> operation \<Rightarrow> 's RAGPipeline \<Rightarrow> RAGQuery option" where
  "call_result (env, Query q) p =
     (case fst (query env q p) of
        Inr r \<Rightarrow> if context' r = [] then None else Some r
      | Inl message \<Rightarrow> None)"
| "call_result (env, StreamQuery q n) p =
     (case returned (fst (streamQuery env q n p)) of
        r # rs \<Rightarrow> if context' r = [] then None else Some r
      | [] \<Rightarrow> None)"
| "call_result (env, ClearHistory) p = None"
| "call_result (env, ClearKnowledgeBase) p = None"

text \<open>A number that is neither \<open>NaN\<close> nor an infinity.\<close>

definition is_num :: "number \<Rightarrow> bool" where
  "is_num a = (case a of Num r \<Rightarrow> True | _ \<Rightarrow> False)"

text \<open>Every stored entry has a finite score for the query \<open>q\<close>.\<close>

definition finite_scores :: "documents \<Rightarrow> string \<Rightarrow> bool" where
  "finite_scores docs q = list_all (\<lambda>item. is_num (snd item)) (similarities docs q)"

text \<open>No item has a higher score than an item before it.\<close>

definition descending :: "(DocumentChunk \<times> number) list \<Rightarrow> bool" where
  "descending items = sorted_wrt (\<lambda>a b. \<not> num_gt (snd b) (snd a)) items"

text \<open>A vector whose entries are all finite.\<close>

definition finite_vector :: "number list \<Rightarrow> bool" where
  "finite_vector v = list_all is_num v"

text \<open>Every stored embedding is the embedding of the stored content.\<close>

definition consistent :: "documents \<Rightarrow> bool" where
  "consistent docs =
     (\<forall>entry\<in>set docs. embedding (snd entry) = createSimpleEmbedding (content (snd entry)))"

section \<open>Example data\<close>

text \<open>Concrete configurations, stores and collaborators, used to instantiate the theorems.\<close>

definition invalid_config :: PartialRAGConfig where
  "invalid_config =
     \<lparr>groqApiKey = Some ''  '', model = None, temperature = Some 2, maxTokens = Some (- 1),
      topK = Some (- 4), chunkSize = Some 50, chunkOverlap = Some 10\<rparr>"

definition unchecked_config :: PartialRAGConfig where
  "unchecked_config =
     \<lparr>groqApiKey = Some ''gsk_key'', model = Some ''llama-3.1-8b-instant'',
      temperature = Some (1 / 10), maxTokens = Some 0, topK = Some 0, chunkSize = Some 1000,
      chunkOverlap = Some 1000\<rparr>"

definition sky_chunk :: DocumentChunk where
  "sky_chunk =
     \<lparr>id' = ''doc1_chunk_0'', content = ''The sky is blue.'',
      metadata = \<lparr>source = ''doc1'', page = None, startIndex = 0, endIndex = 16\<rparr>\<rparr>"

text \<open>
  Collaborators over a store without state: the search finds \<open>sky_chunk\<close>, the provider
  answers \<open>ans\<close> and streams three fragments.
\<close>

definition stub_env :: "string \<Rightarrow> unit Collaborators" where
  "stub_env ans =
     \<lparr>vs_similaritySearch = (\<lambda>s q k. Inr [sky_chunk]), vs_clear = None,
      llm_generate = (\<lambda>prompt. Inr ans),
      llm_stream = (\<lambda>prompt. ([''The '', ''sky '', ''is blue.''], None)),
      new_queryId = ''query_1'', new_Date = 0\<rparr>"

text \<open>Collaborators whose search throws.\<close>

definition failing_env :: "unit Collaborators" where
  "failing_env =
     (stub_env ''unused'')\<lparr>vs_similaritySearch := (\<lambda>s q k. Inl ''Search failed: timeout'')\<rparr>"

text \<open>Collaborators over the in-memory store.\<close>

definition inMemory_env :: "documents Collaborators" where
  "inMemory_env =
     \<lparr>vs_similaritySearch = inMemory_similaritySearch, vs_clear = Some clear,
      llm_generate = (\<lambda>prompt. Inr ''It is blue.''),
      llm_stream = (\<lambda>prompt. ([''It '', ''is blue.''], None)),
      new_queryId = ''query_1'', new_Date = 0\<rparr>"

text \<open>
  Six calls, each answered by the provider: four of \<open>query\<close> and two of \<open>streamQuery\<close>
  read to the end.
\<close>

definition six_calls :: "(unit Collaborators \<times> operation) list" where
  "six_calls =
     [(stub_env ''a1'', Query ''q1''), (stub_env ''a2'', StreamQuery ''q2'' 6),
      (stub_env ''a3'', Query ''q3''), (stub_env ''a4'', Query ''q4''),
      (stub_env ''a5'', StreamQuery ''q5'' 6), (stub_env ''a6'', Query ''q6'')]"

text \<open>Three chunks of one document.\<close>

definition chunk_a :: DocumentChunk where
  "chunk_a =
     \<lparr>id' = ''doc1_chunk_0'', content = ''a'',
      metadata = \<lparr>source = ''doc1'', page = None, startIndex = 0, endIndex = 1\<rparr>\<rparr>"

definition chunk_bad :: DocumentChunk where
  "chunk_bad =
     \<lparr>id' = ''doc1_chunk_1'', content = ''bad'',
      metadata = \<lparr>source = ''doc1'', page = None, startIndex = 1, endIndex = 4\<rparr>\<rparr>"

definition chunk_b :: DocumentChunk where
  "chunk_b =
     \<lparr>id' = ''doc1_chunk_2'', content = ''b'',
      metadata = \<lparr>source = ''doc1'', page = None, startIndex = 4, endIndex = 5\<rparr>\<rparr>"

text \<open>An embedding computation that throws on one text.\<close>

definition flaky_embedding :: "string \<Rightarrow> string + number list" where
  "flaky_embedding t = (if t = ''bad'' then Inl ''boom'' else Inr (createSimpleEmbedding t))"

text \<open>A chunk with empty content, and a second chunk with the content of \<open>chunk_a\<close>.\<close>

definition chunk_empty :: DocumentChunk where
  "chunk_empty =
     \<lparr>id' = ''doc0_chunk_0'', content = '''',
      metadata = \<lparr>source = ''doc0'', page = None, startIndex = 0, endIndex = 0\<rparr>\<rparr>"

definition chunk_a2 :: DocumentChunk where
  "chunk_a2 =
     \<lparr>id' = ''doc2_chunk_0'', content = ''a'',
      metadata = \<lparr>source = ''doc2'', page = None, startIndex = 0, endIndex = 1\<rparr>\<rparr>"

text \<open>Three stores, each filled by one call of \<open>addDocuments\<close> on the empty store.\<close>

definition ab_docs :: documents where
  "ab_docs = fst (snd (addDocuments [chunk_a, chunk_b] []))"

definition tie_docs :: documents where
  "tie_docs = fst (snd (addDocuments [chunk_a, chunk_a2] []))"

definition nan_docs :: documents where
  "nan_docs = fst (snd (addDocuments [chunk_empty, chunk_a] []))"

section \<open>Deleting a document\<close>

lemma startsWith_iff: "startsWith s p \<longleftrightarrow> (\<exists>t. s = p @ t)"
proof
  assume "startsWith s p"
  then have "s = p @ drop (length p) s"
    unfolding startsWith_def by (metis append_take_drop_id)
  then show "\<exists>t. s = p @ t" ..
next
  assume "\<exists>t. s = p @ t"
  then show "startsWith s p"
    unfolding startsWith_def by auto
qed

lemma foldl_map_delete:
  "foldl (\<lambda>m key. map_delete key m) docs ks = filter (\<lambda>e. fst e \<notin> set ks) docs"
proof (induction ks arbitrary: docs)
  case Nil
  show ?case by simp
next
  case (Cons k ks)
  have "map_delete k docs = filter (\<lambda>e. fst e \<noteq> k) docs"
    by (induction docs) (auto simp: map_delete_def)
  then show ?case
    using Cons.IH [of "map_delete k docs"] by (simp add: conj_commute)
qed

text \<open>
  C9. For every store state and document id \<open>D\<close>, \<open>delete(D)\<close> removes exactly the entries
  whose key (the chunk id) has \<open>D\<close> as a string prefix: what is left is the store with
  those entries filtered out, every other entry in place and unchanged (content, metadata
  and embedding).
\<close>

theorem delete_removes_prefixed:
  "delete D docs = filter (\<lambda>e. \<not> startsWith (fst e) D) docs"
proof -
  have "filter (\<lambda>e. fst e \<notin> set (filter (\<lambda>key. startsWith key D) (map fst docs))) docs
        = filter (\<lambda>e. \<not> startsWith (fst e) D) docs"
    by (rule filter_cong) auto
  then show ?thesis
    by (simp add: delete_def foldl_map_delete)
qed

section \<open>Validating a configuration\<close>

text \<open>
  C2, as the code has it. \<open>validateConfig\<close> runs every check and returns all the messages
  together: a missing or blank credential, a temperature outside \<open>[0,1]\<close>, a negative
  \<open>maxTokens\<close>, a negative \<open>topK\<close> and a \<open>chunkSize\<close> below 100 other than \<open>0\<close> each
  put their message into the result, whatever the other fields are. \<open>chunkOverlap\<close> is
  not read: changing it never changes the result.
\<close>

theorem validateConfig_collects:
  "((groqApiKey c = None \<or> (\<exists>key. groqApiKey c = Some key \<and> trim key = []))
      \<longrightarrow> ''Groq API key is required'' \<in> set (validateConfig c))
   \<and> ((\<exists>t. temperature c = Some t \<and> (t < 0 \<or> t > 1))
      \<longrightarrow> ''Temperature must be between 0 and 1'' \<in> set (validateConfig c))
   \<and> ((\<exists>n. maxTokens c = Some n \<and> n < 0)
      \<longrightarrow> ''Max tokens must be greater than 0'' \<in> set (validateConfig c))
   \<and> ((\<exists>n. topK c = Some n \<and> n < 0)
      \<longrightarrow> ''Top K must be greater than 0'' \<in> set (validateConfig c))
   \<and> ((\<exists>n. chunkSize c = Some n \<and> n \<noteq> 0 \<and> n < 100)
      \<longrightarrow> ''Chunk size must be at least 100 characters'' \<in> set (validateConfig c))
   \<and> validateConfig (c\<lparr>chunkOverlap := v\<rparr>) = validateConfig c"
  by (auto simp: validateConfig_def split: option.splits)

text \<open>A configuration with five invalid fields gets all five messages.\<close>

theorem validateConfig_collects_witness:
  "trim ''  '' = []
   \<and> ''Groq API key is required'' \<in> set (validateConfig invalid_config)
   \<and> ''Temperature must be between 0 and 1'' \<in> set (validateConfig invalid_config)
   \<and> ''Max tokens must be greater than 0'' \<in> set (validateConfig invalid_config)
   \<and> ''Top K must be greater than 0'' \<in> set (validateConfig invalid_config)
   \<and> ''Chunk size must be at least 100 characters'' \<in> set (validateConfig invalid_config)
   \<and> length (validateConfig invalid_config) = 5"
proof -
  have t: "trim ''  '' = []"
    by (simp add: trim_def isSpace_def)
  have n: "length (validateConfig invalid_config) = 5"
    by (simp add: validateConfig_def invalid_config_def t)
  show ?thesis
    using validateConfig_collects [of invalid_config "Some 10"] t n
    by (simp add: invalid_config_def)
qed

text \<open>
  C2 as the specification states it fails: a configuration with \<open>maxTokens = 0\<close>,
  \<open>topK = 0\<close> and \<open>chunkOverlap = chunkSize\<close> passes validation with no message at all.
\<close>

theorem validateConfig_counterexample:
  "maxTokens unchecked_config = Some 0 \<and> topK unchecked_config = Some 0
   \<and> chunkSize unchecked_config = Some 1000 \<and> chunkOverlap unchecked_config = Some 1000
   \<and> validateConfig unchecked_config = []"
  by (simp add: validateConfig_def unchecked_config_def trim_def isSpace_def)

section \<open>The query pipeline\<close>

subsection \<open>The fallback result\<close>

lemma similaritySearch_empty: "similaritySearch [] q k = []"
  by (simp add: similaritySearch_def)

lemma query_no_chunks:
  "retrieveContext env p q = [] \<Longrightarrow> query env q p = (Inr (fallback_result env q), p)"
  by (simp add: query_def fallback_result_def)

text \<open>
  C6. For every question, \<open>query\<close> on a pipeline whose retrieval yields no chunk returns a
  result, not an error: the fixed fallback answer with empty context and empty sources.
  An empty in-memory store is such a store.
\<close>

theorem query_fallback:
  "(retrieveContext env p q = []
      \<longrightarrow> fst (query env q p) =
            Inr \<lparr>query_id = new_queryId env, question = q, context' = [],
                 answer = fallback_answer, timestamp = new_Date env, sources = []\<rparr>)
   \<and> (vs_similaritySearch env' = inMemory_similaritySearch \<longrightarrow> vectorStore p' = []
        \<longrightarrow> fst (query env' q p') =
              Inr \<lparr>query_id = new_queryId env', question = q, context' = [],
                   answer = fallback_answer, timestamp = new_Date env', sources = []\<rparr>)"
  by (simp add: query_no_chunks fallback_result_def retrieveContext_def
        inMemory_similaritySearch_def similaritySearch_empty)

text \<open>The question of the specification's scenario, asked of an empty in-memory store.\<close>

theorem query_fallback_witness:
  "retrieveContext inMemory_env (newPipeline [] 4) ''What color is the sky?'' = []
   \<and> fst (query inMemory_env ''What color is the sky?'' (newPipeline [] 4)) =
       Inr \<lparr>query_id = ''query_1'', question = ''What color is the sky?'', context' = [],
            answer = fallback_answer, timestamp = 0, sources = []\<rparr>"
proof -
  have r: "retrieveContext inMemory_env (newPipeline [] 4) ''What color is the sky?'' = []"
    by (simp add: retrieveContext_def inMemory_env_def inMemory_similaritySearch_def
          newPipeline_def similaritySearch_empty)
  show ?thesis
    using query_fallback [of inMemory_env "newPipeline [] 4" "''What color is the sky?''"
        inMemory_env "newPipeline [] 4"] r
    by (simp add: inMemory_env_def newPipeline_def)
qed

text \<open>
  C7. When the store's \<open>similaritySearch\<close> throws during a query, the query does not fail:
  it returns the fallback result and leaves the pipeline as it was, exactly as it does
  with a store that finds nothing.
\<close>

theorem query_store_failure:
  assumes "vs_similaritySearch env (vectorStore p) q (config_topK p) = Inl message"
  shows "query env q p =
           (Inr \<lparr>query_id = new_queryId env, question = q, context' = [],
                 answer = fallback_answer, timestamp = new_Date env, sources = []\<rparr>, p)
         \<and> query env q p = query (env\<lparr>vs_similaritySearch := \<lambda>s q k. Inr []\<rparr>) q p"
proof -
  have "retrieveContext env p q = []"
    using assms by (simp add: retrieveContext_def)
  moreover have "retrieveContext (env\<lparr>vs_similaritySearch := \<lambda>s q k. Inr []\<rparr>) p q = []"
    by (simp add: retrieveContext_def)
  ultimately show ?thesis
    by (simp add: query_no_chunks fallback_result_def)
qed

theorem query_store_failure_witness:
  "vs_similaritySearch failing_env () ''What color is the sky?'' 4 = Inl ''Search failed: timeout''
   \<and> query failing_env ''What color is the sky?'' (newPipeline () 4) =
       (Inr \<lparr>query_id = ''query_1'', question = ''What color is the sky?'', context' = [],
             answer = fallback_answer, timestamp = 0, sources = []\<rparr>, newPipeline () 4)"
proof -
  have f: "vs_similaritySearch failing_env (vectorStore (newPipeline () 4))
             ''What color is the sky?'' (config_topK (newPipeline () 4))
           = Inl ''Search failed: timeout''"
    by (simp add: failing_env_def)
  show ?thesis
    using query_store_failure [OF f] by (simp add: failing_env_def stub_env_def)
qed

subsection \<open>The generator\<close>

lemma pulls_done: "pulls env q n (GDone, p) = (replicate n Completed, GDone, p)"
  by (induction n) auto

lemma answers_simps [simp]:
  "answers [] = []"
  "answers (Yield TAnswer s # outs) = s # answers outs"
  "answers (Yield TContext s # outs) = answers outs"
  "answers (Return r # outs) = answers outs"
  "answers (Throw m # outs) = answers outs"
  "answers (Completed # outs) = answers outs"
  by (simp_all add: answers_def)

lemma answers_replicate [simp]: "answers (replicate n Completed) = []"
  by (induction n) simp_all

text \<open>
  From inside the loop: as long as the generator is not completed the pipeline is
  untouched, and when the pipeline has changed the consumer has received every remaining
  fragment and the stream ended without failure.
\<close>

lemma pulls_streaming:
  "pulls env q n (GStreaming cs full rest failure, p) = (outs, g, p') \<Longrightarrow>
     (g \<noteq> GDone \<longrightarrow> p' = p)
     \<and> (p' \<noteq> p \<longrightarrow> failure = None \<and> answers outs = rest
          \<and> p' = p\<lparr>conversationHistory :=
                      remember q (full @ concat rest) (conversationHistory p)\<rparr>)"
proof (induction n arbitrary: full rest outs)
  case 0
  then show ?case by simp
next
  case (Suc n)
  show ?case
  proof (cases rest)
    case Nil
    then show ?thesis
      using Suc.prems by (cases failure) (auto simp: pulls_done)
  next
    case (Cons f fs)
    obtain outs' where o: "pulls env q n (GStreaming cs (full @ f) fs failure, p) = (outs', g, p')"
      and outs: "outs = Yield TAnswer f # outs'"
      using Suc.prems Cons by (auto split: prod.splits)
    from Suc.IH [OF o] show ?thesis
      using outs Cons by auto
  qed
qed

lemma pulls_found:
  "pulls env q n (GFound cs, p) = (outs, g, p') \<Longrightarrow>
     (g \<noteq> GDone \<longrightarrow> p' = p)
     \<and> (p' \<noteq> p \<longrightarrow>
          llm_stream env (createConversationPrompt q (formatContextChunks cs)
                            (conversationHistory p)) = (answers outs, None)
          \<and> p' = p\<lparr>conversationHistory :=
                      remember q (concat (answers outs)) (conversationHistory p)\<rparr>)"
proof (cases n)
  case 0
  assume "pulls env q n (GFound cs, p) = (outs, g, p')"
  with 0 show ?thesis by simp
next
  case (Suc m)
  assume a: "pulls env q n (GFound cs, p) = (outs, g, p')"
  let ?S = "llm_stream env (createConversationPrompt q (formatContextChunks cs)
                              (conversationHistory p))"
  have "pulls env q (Suc m) (GFound cs, p)
        = pulls env q (Suc m) (GStreaming cs [] (fst ?S) (snd ?S), p)"
    by (simp add: Let_def)
  then have "pulls env q (Suc m) (GStreaming cs [] (fst ?S) (snd ?S), p) = (outs, g, p')"
    using a Suc by simp
  from pulls_streaming [OF this] show ?thesis
    by (auto simp: prod_eq_iff)
qed

lemma pulls_searching:
  "pulls env q n (GSearching, p) = (outs, g, p') \<Longrightarrow>
     (g \<noteq> GDone \<longrightarrow> p' = p)
     \<and> (p' \<noteq> p \<longrightarrow> retrieveContext env p q \<noteq> []
          \<and> llm_stream env (prompt_of env q p) = (answers outs, None)
          \<and> p' = p\<lparr>conversationHistory :=
                      remember q (concat (answers outs)) (conversationHistory p)\<rparr>)"
proof (cases n)
  case 0
  assume "pulls env q n (GSearching, p) = (outs, g, p')"
  with 0 show ?thesis by simp
next
  case (Suc m)
  assume a: "pulls env q n (GSearching, p) = (outs, g, p')"
  show ?thesis
  proof (cases "retrieveContext env p q = []")
    case True
    then show ?thesis
      using a Suc by (cases m) (auto simp: Let_def pulls_done split: prod.splits)
  next
    case False
    then obtain outs' out
      where o: "pulls env q m (GFound (retrieveContext env p q), p) = (outs', g, p')"
        and outs: "outs = Yield TContext out # outs'"
      using a Suc by (auto simp: Let_def split: prod.splits)
    from pulls_found [OF o] show ?thesis
      using outs False by (auto simp: prompt_of_def)
  qed
qed

text \<open>
  C4. A consumer of \<open>streamQuery\<close> that stops after any number \<open>n\<close> of values, while the
  generator is not yet completed, leaves the pipeline, and so the conversation history,
  exactly as it was before the call. The history changes only in a call whose consumer
  has received every fragment of the provider's stream, which ended without failure: the
  pair appended is the question with the concatenation of all the fragments.
\<close>

theorem streamQuery_cancel:
  "streamQuery env q n p = (outs, g, p') \<Longrightarrow>
     (g \<noteq> GDone \<longrightarrow> p' = p)
     \<and> (p' \<noteq> p \<longrightarrow> retrieveContext env p q \<noteq> []
          \<and> llm_stream env (prompt_of env q p) = (answers outs, None)
          \<and> p' = p\<lparr>conversationHistory :=
                      remember q (concat (answers outs)) (conversationHistory p)\<rparr>)"
proof (cases n)
  case 0
  assume "streamQuery env q n p = (outs, g, p')"
  with 0 show ?thesis by (simp add: streamQuery_def)
next
  case (Suc m)
  assume "streamQuery env q n p = (outs, g, p')"
  then obtain outs' where o: "pulls env q m (GSearching, p) = (outs', g, p')"
    and outs: "outs = Yield TContext ''Searching knowledge base...'' # outs'"
    using Suc by (auto simp: streamQuery_def split: prod.splits)
  from pulls_searching [OF o] show ?thesis
    using outs by auto
qed

text \<open>
  The scenario of the specification: the consumer stops after two fragments (the fourth
  value) of a stream of three.
\<close>

theorem streamQuery_cancel_witness:
  "streamQuery (stub_env ''unused'') ''What color is the sky?'' 4 (newPipeline () 4) =
     ([Yield TContext ''Searching knowledge base...'',
       Yield TContext ''Found 1 relevant document(s). Generating response...'',
       Yield TAnswer ''The '', Yield TAnswer ''sky ''],
      GStreaming [sky_chunk] ''The sky '' [''is blue.''] None, newPipeline () 4)
   \<and> conversationHistory (snd (snd (streamQuery (stub_env ''unused'')
          ''What color is the sky?'' 4 (newPipeline () 4)))) = []"
proof -
  have e: "streamQuery (stub_env ''unused'') ''What color is the sky?'' 4 (newPipeline () 4) =
     ([Yield TContext ''Searching knowledge base...'',
       Yield TContext ''Found 1 relevant document(s). Generating response...'',
       Yield TAnswer ''The '', Yield TAnswer ''sky ''],
      GStreaming [sky_chunk] ''The sky '' [''is blue.''] None, newPipeline () 4)"
  proof -
    have four: "(4::nat) = Suc (Suc (Suc (Suc 0)))"
      by simp
    have one: "digits (Suc 0) = ''1''"
      by code_simp
    have r: "retrieveContext (stub_env ''unused'') (newPipeline () 4) ''What color is the sky?''
             = [sky_chunk]"
      by (simp add: retrieveContext_def stub_env_def)
    have s: "llm_stream (stub_env ''unused'') x = ([''The '', ''sky '', ''is blue.''], None)" for x
      by (simp add: stub_env_def)
    show ?thesis
      unfolding streamQuery_def four by (simp add: r s one Let_def)
  qed
  from streamQuery_cancel [OF e] show ?thesis
    using e by (simp add: newPipeline_def)
qed

subsection \<open>The fallback path and the history\<close>

lemma pulls_no_chunks:
  assumes "retrieveContext env p q = []"
  shows "snd (snd (pulls env q n (GStart, p))) = p"
proof (cases n)
  case 0
  then show ?thesis by simp
next
  case (Suc m)
  note n = this
  show ?thesis
  proof (cases m)
    case 0
    with n show ?thesis by simp
  next
    case (Suc k)
    note m = this
    show ?thesis
    proof (cases k)
      case 0
      with n m assms show ?thesis by (simp add: Let_def)
    next
      case (Suc j)
      with n m assms show ?thesis by (simp add: Let_def pulls_done)
    qed
  qed
qed

lemma query_cases:
  "query env q p = (r, p') \<Longrightarrow>
     p' = p \<or> (\<exists>ans. r = Inr (result_of env q (retrieveContext env p q) ans)
                  \<and> retrieveContext env p q \<noteq> []
                  \<and> llm_generate env (prompt_of env q p) = Inr ans
                  \<and> p' = p\<lparr>conversationHistory := remember q ans (conversationHistory p)\<rparr>)"
  by (auto simp: query_def prompt_of_def Let_def split: if_splits sum.splits)

text \<open>
  C10. On the path where no chunk was retrieved, \<open>query\<close> returns with the pipeline
  unchanged, and so does \<open>streamQuery\<close>, however many values its consumer takes: the
  fallback answer never enters the history. A \<open>query\<close> that changes the pipeline is one
  whose retrieval found chunks and whose provider returned an answer, and the change is
  that answer appended to the history.
\<close>

theorem fallback_leaves_history:
  "(retrieveContext env p q = []
      \<longrightarrow> snd (query env q p) = p \<and> snd (snd (streamQuery env q n p)) = p)
   \<and> (snd (query env q p) \<noteq> p
      \<longrightarrow> retrieveContext env p q \<noteq> []
          \<and> (\<exists>ans. llm_generate env (prompt_of env q p) = Inr ans
                 \<and> snd (query env q p) =
                     p\<lparr>conversationHistory := remember q ans (conversationHistory p)\<rparr>))"
proof (intro conjI impI)
  assume "retrieveContext env p q = []"
  then show "snd (query env q p) = p" and "snd (snd (streamQuery env q n p)) = p"
    by (simp_all add: query_no_chunks streamQuery_def pulls_no_chunks)
next
  assume c: "snd (query env q p) \<noteq> p"
  have "query env q p = (fst (query env q p), snd (query env q p))"
    by simp
  from query_cases [OF this] c
  show "retrieveContext env p q \<noteq> []"
    and "\<exists>ans. llm_generate env (prompt_of env q p) = Inr ans
            \<and> snd (query env q p) =
                p\<lparr>conversationHistory := remember q ans (conversationHistory p)\<rparr>"
    by auto
qed

text \<open>
  A pipeline that already has an exchange in its history, asked a question over an empty
  in-memory store: the history is the same after \<open>query\<close> and after a \<open>streamQuery\<close> read
  to its end.
\<close>

theorem fallback_leaves_history_witness:
  "retrieveContext inMemory_env
     (newPipeline [] 4\<lparr>conversationHistory := [(''q0'', ''a0'')]\<rparr>) ''What color is the sky?'' = []
   \<and> conversationHistory (snd (query inMemory_env ''What color is the sky?''
        (newPipeline [] 4\<lparr>conversationHistory := [(''q0'', ''a0'')]\<rparr>))) = [(''q0'', ''a0'')]
   \<and> conversationHistory (snd (snd (streamQuery inMemory_env ''What color is the sky?'' 3
        (newPipeline [] 4\<lparr>conversationHistory := [(''q0'', ''a0'')]\<rparr>)))) = [(''q0'', ''a0'')]"
proof -
  let ?p = "newPipeline [] 4\<lparr>conversationHistory := [(''q0'', ''a0'')]\<rparr>"
  have r: "retrieveContext inMemory_env ?p ''What color is the sky?'' = []"
    by (simp add: retrieveContext_def inMemory_env_def inMemory_similaritySearch_def
          newPipeline_def similaritySearch_empty)
  have "snd (query inMemory_env ''What color is the sky?'' ?p) = ?p
        \<and> snd (snd (streamQuery inMemory_env ''What color is the sky?'' 3 ?p)) = ?p"
    using fallback_leaves_history [of inMemory_env ?p "''What color is the sky?''" 3] r
    by blast
  then have "conversationHistory (snd (query inMemory_env ''What color is the sky?'' ?p))
               = conversationHistory ?p
        \<and> conversationHistory (snd (snd (streamQuery inMemory_env ''What color is the sky?'' 3 ?p)))
               = conversationHistory ?p"
    by simp
  moreover have "conversationHistory ?p = [(''q0'', ''a0'')]"
    by simp
  ultimately show ?thesis
    using r by simp
qed

subsection \<open>The capacity of the history\<close>

lemma remember_slice: "remember q a h = slice_last 5 (h @ [(q, a)])"
  by (simp add: remember_def slice_last_def Let_def)

lemma length_remember: "length (remember q a h) \<le> 5"
  by (simp add: remember_slice slice_last_def)

lemma query_bounded: "bounded p \<Longrightarrow> bounded (snd (query env q p))"
  using query_cases [of env q p "fst (query env q p)" "snd (query env q p)"]
  by (auto simp: bounded_def length_remember)

lemma stream_loop_bounded:
  "bounded p \<Longrightarrow> bounded (snd (snd (stream_loop env q cs full rest failure p)))"
  by (cases "(env, q, cs, full, rest, failure, p)" rule: stream_loop.cases)
     (auto simp: bounded_def length_remember)

lemma next_step_bounded: "bounded p \<Longrightarrow> bounded (snd (snd (next_step env q (g, p))))"
  by (cases g) (auto simp: Let_def stream_loop_bounded)

lemma pulls_bounded: "bounded p \<Longrightarrow> bounded (snd (snd (pulls env q n (g, p))))"
proof (induction n arbitrary: g p)
  case 0
  then show ?case by simp
next
  case (Suc n)
  obtain out g' p' where s: "next_step env q (g, p) = (out, g', p')"
    by (cases "next_step env q (g, p)") auto
  have "bounded p'"
    using next_step_bounded [OF Suc.prems, of env q g] s by simp
  then have "bounded (snd (snd (pulls env q n (g', p'))))"
    by (rule Suc.IH)
  then show ?case
    using s by (cases "pulls env q n (g', p')") auto
qed

lemma exec_bounded: "bounded p \<Longrightarrow> bounded (exec call p)"
proof (cases call)
  case (Pair env operation)
  assume b: "bounded p"
  show ?thesis
  proof (cases operation)
    case (Query q)
    with Pair b show ?thesis by (simp add: query_bounded)
  next
    case (StreamQuery q n)
    with Pair b show ?thesis by (simp add: streamQuery_def pulls_bounded)
  next
    case ClearHistory
    with Pair show ?thesis by (simp add: clearHistory_def bounded_def)
  next
    case ClearKnowledgeBase
    with Pair show ?thesis by (simp add: clearKnowledgeBase_def bounded_def)
  qed
qed

lemma run_bounded: "bounded p \<Longrightarrow> bounded (run calls p)"
  unfolding run_def by (induction calls arbitrary: p) (auto simp: exec_bounded)

text \<open>A query answered from retrieved chunks appends its exchange and keeps the last five.\<close>

lemma query_success:
  assumes "query env q p = (Inr r, p')" and "context' r \<noteq> []"
  shows "conversationHistory p' = slice_last 5 (conversationHistory p @ [(q, answer r)])"
  using assms
  by (auto simp: query_def Let_def remember_slice result_of_def split: if_splits sum.splits)

lemma returned_simps [simp]:
  "returned [] = []"
  "returned (Return r # outs) = r # returned outs"
  "returned (Yield t s # outs) = returned outs"
  "returned (Throw m # outs) = returned outs"
  "returned (Completed # outs) = returned outs"
  by (simp_all add: returned_def)

lemma returned_replicate [simp]: "returned (replicate n Completed) = []"
  by (induction n) simp_all

lemma set_returned: "r \<in> set (returned outs) \<longleftrightarrow> Return r \<in> set outs"
proof (induction outs)
  case Nil
  show ?case by simp
next
  case (Cons out outs)
  then show ?case by (cases out) auto
qed

text \<open>What the consumer of a stream in its loop gets when it reads on.\<close>

lemma pulls_streaming_returned:
  "pulls env q n (GStreaming cs full rest failure, p) = (outs, g, p') \<Longrightarrow>
     returned outs = [] \<and> (g \<noteq> GDone \<or> failure \<noteq> None \<and> p' = p)
     \<or> returned outs = [result_of env q cs (full @ concat rest)] \<and> failure = None \<and> g = GDone
        \<and> p' = p\<lparr>conversationHistory :=
                    remember q (full @ concat rest) (conversationHistory p)\<rparr>"
proof (induction n arbitrary: full rest outs)
  case 0
  then show ?case by auto
next
  case (Suc n)
  show ?case
  proof (cases rest)
    case Nil
    then show ?thesis
      using Suc.prems by (cases failure) (auto simp: pulls_done)
  next
    case (Cons f fs)
    obtain outs' where o: "pulls env q n (GStreaming cs (full @ f) fs failure, p) = (outs', g, p')"
      and outs: "outs = Yield TAnswer f # outs'"
      using Suc.prems Cons by (auto split: prod.splits)
    from Suc.IH [OF o] show ?thesis
      using outs Cons by auto
  qed
qed

text \<open>Read far enough, a stream without failure yields all its fragments and returns.\<close>

lemma pulls_streaming_complete:
  "length rest < n \<Longrightarrow>
     pulls env q n (GStreaming cs full rest None, p) =
       (map (Yield TAnswer) rest @ Return (result_of env q cs (full @ concat rest))
          # replicate (n - length rest - 1) Completed,
        GDone,
        p\<lparr>conversationHistory := remember q (full @ concat rest) (conversationHistory p)\<rparr>)"
proof (induction rest arbitrary: n full)
  case Nil
  then obtain m where "n = Suc m"
    by (cases n) auto
  then show ?case by (simp add: pulls_done)
next
  case (Cons f fs)
  then obtain m where m: "n = Suc m" "length fs < m"
    by (cases n) auto
  show ?case
    using Cons.IH [OF m(2), of "full @ f"] m by simp
qed

text \<open>A stream that returned a result with context has recorded its exchange.\<close>

lemma streamQuery_returned:
  assumes "streamQuery env q n p = (outs, g, p')" and "Return r \<in> set outs" and "context' r \<noteq> []"
  shows "p' = p\<lparr>conversationHistory := remember q (answer r) (conversationHistory p)\<rparr>
         \<and> returned outs = [r]"
proof -
  obtain m outs1 where n: "n = Suc m" and o1: "pulls env q m (GSearching, p) = (outs1, g, p')"
    and outs: "outs = Yield TContext ''Searching knowledge base...'' # outs1"
    using assms(1,2) by (cases n) (auto simp: streamQuery_def split: prod.splits)
  have r1: "Return r \<in> set outs1"
    using assms(2) outs by simp
  show ?thesis
  proof (cases "retrieveContext env p q = []")
    case True
    have "context' r = []" if "m = Suc j" for j
      using o1 r1 True that by (cases j) (auto simp: Let_def pulls_done split: prod.splits)
    moreover have "m \<noteq> 0"
      using o1 r1 by (cases m) auto
    ultimately show ?thesis
      using assms(3) by (cases m) auto
  next
    case False
    let ?cs = "retrieveContext env p q"
    let ?S = "llm_stream env (createConversationPrompt q (formatContextChunks ?cs)
                                (conversationHistory p))"
    obtain j outs2 out where m: "m = Suc j"
      and o2: "pulls env q j (GFound ?cs, p) = (outs2, g, p')"
      and outs1: "outs1 = Yield TContext out # outs2"
      using o1 r1 False by (cases m) (auto simp: Let_def split: prod.splits)
    have r2: "Return r \<in> set outs2"
      using r1 outs1 by simp
    then obtain i where j: "j = Suc i"
      using o2 by (cases j) auto
    have "pulls env q (Suc i) (GFound ?cs, p)
          = pulls env q (Suc i) (GStreaming ?cs [] (fst ?S) (snd ?S), p)"
      by (simp add: Let_def)
    then have "pulls env q (Suc i) (GStreaming ?cs [] (fst ?S) (snd ?S), p) = (outs2, g, p')"
      using o2 j by simp
    from pulls_streaming_returned [OF this] r2
    have "returned outs2 = [result_of env q ?cs (concat (fst ?S))]"
      and "p' = p\<lparr>conversationHistory :=
                     remember q (concat (fst ?S)) (conversationHistory p)\<rparr>"
      by (auto simp flip: set_returned)
    moreover from this r2 have "r = result_of env q ?cs (concat (fst ?S))"
      by (simp flip: set_returned)
    ultimately show ?thesis
      using outs outs1 by (simp add: result_of_def)
  qed
qed

lemma streamQuery_complete:
  assumes "retrieveContext env p q \<noteq> []" and "llm_stream env (prompt_of env q p) = (fs, None)"
    and "length fs + 3 \<le> n"
  shows "streamQuery env q n p =
           (Yield TContext ''Searching knowledge base...''
              # Yield TContext (''Found '' @ digits (length (retrieveContext env p q))
                                 @ '' relevant document(s). Generating response...'')
              # map (Yield TAnswer) fs
              @ Return (result_of env q (retrieveContext env p q) (concat fs))
              # replicate (n - length fs - 3) Completed,
            GDone,
            p\<lparr>conversationHistory := remember q (concat fs) (conversationHistory p)\<rparr>)"
proof -
  define m where "m = n - 3"
  have n: "n = Suc (Suc (Suc m))" and m: "length fs \<le> m"
    using assms(3) by (simp_all add: m_def)
  let ?cs = "retrieveContext env p q"
  have s: "llm_stream env (createConversationPrompt q (formatContextChunks ?cs)
                             (conversationHistory p)) = (fs, None)"
    using assms(2) by (simp add: prompt_of_def)
  have "pulls env q (Suc m) (GFound ?cs, p) = pulls env q (Suc m) (GStreaming ?cs [] fs None, p)"
    by (simp add: Let_def s)
  also have "\<dots> = (map (Yield TAnswer) fs @ Return (result_of env q ?cs (concat fs))
                       # replicate (Suc m - length fs - 1) Completed,
                     GDone,
                     p\<lparr>conversationHistory := remember q (concat fs) (conversationHistory p)\<rparr>)"
    using pulls_streaming_complete [of fs "Suc m" env q ?cs "[]" p] m by simp
  finally have f: "pulls env q (Suc m) (GFound ?cs, p) =
                     (map (Yield TAnswer) fs @ Return (result_of env q ?cs (concat fs))
                       # replicate (m - length fs) Completed,
                     GDone,
                     p\<lparr>conversationHistory := remember q (concat fs) (conversationHistory p)\<rparr>)"
    by simp
  have "n - length fs - 3 = m - length fs"
    using n by simp
  then show ?thesis
    unfolding streamQuery_def n using assms(1) f by (simp add: Let_def)
qed

lemma call_step:
  assumes "call_result c p = Some r"
  shows "conversationHistory (exec c p)
         = slice_last 5 (conversationHistory p @ [(asked c, answer r)])"
proof (cases c)
  case (Pair env operation)
  show ?thesis
  proof (cases operation)
    case (Query q)
    have "query env q p = (Inr r, snd (query env q p))" and "context' r \<noteq> []"
      using assms Pair Query by (auto simp: prod_eq_iff split: sum.splits if_splits)
    then show ?thesis
      using Pair Query by (simp add: query_success)
  next
    case (StreamQuery q n)
    obtain outs g p' where s: "streamQuery env q n p = (outs, g, p')"
      by (cases "streamQuery env q n p") auto
    have "Return r \<in> set outs" and "context' r \<noteq> []"
      using assms Pair StreamQuery s
      by (auto simp flip: set_returned split: list.splits if_splits)
    from streamQuery_returned [OF s this] show ?thesis
      using Pair StreamQuery s by (simp add: remember_slice)
  next
    case ClearHistory
    then show ?thesis using assms Pair by simp
  next
    case ClearKnowledgeBase
    then show ?thesis using assms Pair by simp
  qed
qed

text \<open>
  C5. After any sequence of \<open>query\<close>, \<open>streamQuery\<close> (read to any point), \<open>clearHistory\<close> and
  \<open>clearKnowledgeBase\<close> calls on a new pipeline the history has at most five entries. A
  \<open>query\<close> answered from retrieved chunks, and a \<open>streamQuery\<close> whose consumer received its
  result, append their exchange and keep the last five, so the oldest goes first; a
  stream that does not fail and is read far enough does return its result and records
  the question with the concatenated fragments. After six answered calls in a row on a
  new pipeline, of \<open>query\<close> or of \<open>streamQuery\<close> in any mix, the history is the exchanges
  two to six, in order, without the first.
\<close>

theorem history_bounded_fifo:
  "length (conversationHistory (run calls (newPipeline store k))) \<le> 5
   \<and> (query env q p = (Inr r, p') \<longrightarrow> context' r \<noteq> []
        \<longrightarrow> conversationHistory p' = slice_last 5 (conversationHistory p @ [(q, answer r)]))
   \<and> (streamQuery env q n p = (outs, g, p') \<longrightarrow> Return r \<in> set outs \<longrightarrow> context' r \<noteq> []
        \<longrightarrow> conversationHistory p' = slice_last 5 (conversationHistory p @ [(q, answer r)]))
   \<and> (retrieveContext env p q \<noteq> [] \<longrightarrow> llm_stream env (prompt_of env q p) = (fs, None)
        \<longrightarrow> length fs + 3 \<le> n
        \<longrightarrow> Return (result_of env q (retrieveContext env p q) (concat fs))
              \<in> set (fst (streamQuery env q n p))
            \<and> conversationHistory (snd (snd (streamQuery env q n p)))
                = slice_last 5 (conversationHistory p @ [(q, concat fs)]))
   \<and> (call_result c p = Some r
        \<longrightarrow> conversationHistory (exec c p)
            = slice_last 5 (conversationHistory p @ [(asked c, answer r)]))
   \<and> (call_result c1 (newPipeline store k) = Some r1
        \<longrightarrow> call_result c2 (run [c1] (newPipeline store k)) = Some r2
        \<longrightarrow> call_result c3 (run [c1, c2] (newPipeline store k)) = Some r3
        \<longrightarrow> call_result c4 (run [c1, c2, c3] (newPipeline store k)) = Some r4
        \<longrightarrow> call_result c5 (run [c1, c2, c3, c4] (newPipeline store k)) = Some r5
        \<longrightarrow> call_result c6 (run [c1, c2, c3, c4, c5] (newPipeline store k)) = Some r6
        \<longrightarrow> conversationHistory (run [c1, c2, c3, c4, c5, c6] (newPipeline store k)) =
              [(asked c2, answer r2), (asked c3, answer r3), (asked c4, answer r4),
               (asked c5, answer r5), (asked c6, answer r6)])"
proof (intro conjI impI)
  have "bounded (newPipeline store k)"
    by (simp add: bounded_def newPipeline_def)
  then have "bounded (run calls (newPipeline store k))"
    by (rule run_bounded)
  then show "length (conversationHistory (run calls (newPipeline store k))) \<le> 5"
    by (simp add: bounded_def)
next
  assume "query env q p = (Inr r, p')" and "context' r \<noteq> []"
  then show "conversationHistory p' = slice_last 5 (conversationHistory p @ [(q, answer r)])"
    by (rule query_success)
next
  assume "streamQuery env q n p = (outs, g, p')" and "Return r \<in> set outs"
    and "context' r \<noteq> []"
  from streamQuery_returned [OF this]
  show "conversationHistory p' = slice_last 5 (conversationHistory p @ [(q, answer r)])"
    by (simp add: remember_slice)
next
  assume a: "retrieveContext env p q \<noteq> []" "llm_stream env (prompt_of env q p) = (fs, None)"
    "length fs + 3 \<le> n"
  note c = streamQuery_complete [OF a]
  show "Return (result_of env q (retrieveContext env p q) (concat fs))
          \<in> set (fst (streamQuery env q n p))"
    unfolding c by simp
  show "conversationHistory (snd (snd (streamQuery env q n p)))
          = slice_last 5 (conversationHistory p @ [(q, concat fs)])"
    unfolding c by (simp add: remember_slice)
next
  assume "call_result c p = Some r"
  then show "conversationHistory (exec c p)
               = slice_last 5 (conversationHistory p @ [(asked c, answer r)])"
    by (rule call_step)
next
  let ?p0 = "newPipeline store k"
  assume a: "call_result c1 ?p0 = Some r1"
    "call_result c2 (run [c1] ?p0) = Some r2"
    "call_result c3 (run [c1, c2] ?p0) = Some r3"
    "call_result c4 (run [c1, c2, c3] ?p0) = Some r4"
    "call_result c5 (run [c1, c2, c3, c4] ?p0) = Some r5"
    "call_result c6 (run [c1, c2, c3, c4, c5] ?p0) = Some r6"
  have snoc: "run (cs @ [c]) p = exec c (run cs p)" for cs c and p :: "'a RAGPipeline"
    by (simp add: run_def)
  have h1: "conversationHistory (run [c1] ?p0) = [(asked c1, answer r1)]"
    using call_step [OF a(1)] by (simp add: run_def newPipeline_def slice_last_def)
  have h2: "conversationHistory (run [c1, c2] ?p0) = [(asked c1, answer r1), (asked c2, answer r2)]"
    using call_step [OF a(2)] h1 snoc [of "[c1]" c2 ?p0] by (simp add: slice_last_def)
  have h3: "conversationHistory (run [c1, c2, c3] ?p0) =
              [(asked c1, answer r1), (asked c2, answer r2), (asked c3, answer r3)]"
    using call_step [OF a(3)] h2 snoc [of "[c1, c2]" c3 ?p0] by (simp add: slice_last_def)
  have h4: "conversationHistory (run [c1, c2, c3, c4] ?p0) =
              [(asked c1, answer r1), (asked c2, answer r2), (asked c3, answer r3),
               (asked c4, answer r4)]"
    using call_step [OF a(4)] h3 snoc [of "[c1, c2, c3]" c4 ?p0] by (simp add: slice_last_def)
  have h5: "conversationHistory (run [c1, c2, c3, c4, c5] ?p0) =
              [(asked c1, answer r1), (asked c2, answer r2), (asked c3, answer r3),
               (asked c4, answer r4), (asked c5, answer r5)]"
    using call_step [OF a(5)] h4 snoc [of "[c1, c2, c3, c4]" c5 ?p0] by (simp add: slice_last_def)
  show "conversationHistory (run [c1, c2, c3, c4, c5, c6] ?p0) =
          [(asked c2, answer r2), (asked c3, answer r3), (asked c4, answer r4),
           (asked c5, answer r5), (asked c6, answer r6)]"
    using call_step [OF a(6)] h5 snoc [of "[c1, c2, c3, c4, c5]" c6 ?p0]
    by (simp add: slice_last_def)
qed

lemma query_stub:
  "query (stub_env a) q p =
     (Inr (result_of (stub_env a) q [sky_chunk] a),
      p\<lparr>conversationHistory := remember q a (conversationHistory p)\<rparr>)"
  by (simp add: query_def retrieveContext_def stub_env_def Let_def)

lemma retrieve_stub: "retrieveContext (stub_env a) p q = [sky_chunk]"
  by (simp add: retrieveContext_def stub_env_def)

lemma stream_stub:
  "streamQuery (stub_env a) q 6 p =
     ([Yield TContext ''Searching knowledge base...'',
       Yield TContext (''Found '' @ digits (length [sky_chunk])
                        @ '' relevant document(s). Generating response...''),
       Yield TAnswer ''The '', Yield TAnswer ''sky '', Yield TAnswer ''is blue.'',
       Return (result_of (stub_env a) q [sky_chunk] ''The sky is blue.'')],
      GDone,
      p\<lparr>conversationHistory := remember q ''The sky is blue.'' (conversationHistory p)\<rparr>)"
proof -
  have r: "retrieveContext (stub_env a) p q \<noteq> []"
    by (simp add: retrieve_stub)
  have s: "llm_stream (stub_env a) (prompt_of (stub_env a) q p)
           = ([''The '', ''sky '', ''is blue.''], None)"
    by (simp add: stub_env_def)
  have n: "length [''The '', ''sky '', ''is blue.''] + 3 \<le> (6::nat)"
    by simp
  show ?thesis
    using streamQuery_complete [OF r s n] by (simp add: retrieve_stub)
qed

lemma call_result_query_stub:
  "call_result (stub_env a, Query q) p = Some (result_of (stub_env a) q [sky_chunk] a)"
  by (simp add: query_stub result_of_def)

lemma call_result_stream_stub:
  "call_result (stub_env a, StreamQuery q 6) p
   = Some (result_of (stub_env a) q [sky_chunk] ''The sky is blue.'')"
  by (simp add: stream_stub result_of_def)

text \<open>
  Six answered calls in a row, the second and the fifth streamed: the first exchange is
  gone, the other five remain.
\<close>

theorem history_bounded_fifo_witness:
  "length (conversationHistory (run six_calls (newPipeline () 4))) \<le> 5
   \<and> conversationHistory (run six_calls (newPipeline () 4)) =
       [(''q2'', ''The sky is blue.''), (''q3'', ''a3''), (''q4'', ''a4''),
        (''q5'', ''The sky is blue.''), (''q6'', ''a6'')]
   \<and> Return (result_of (stub_env ''a2'') ''q2'' [sky_chunk] ''The sky is blue.'')
       \<in> set (fst (streamQuery (stub_env ''a2'') ''q2'' 6 (newPipeline () 4)))
   \<and> conversationHistory (snd (snd (streamQuery (stub_env ''a2'') ''q2'' 6 (newPipeline () 4))))
       = [(''q2'', ''The sky is blue.'')]"
proof -
  have a: "answer (result_of env q cs ans) = ans" for env :: "unit Collaborators" and q cs ans
    by (simp add: result_of_def)
  have "conversationHistory (run six_calls (newPipeline () 4)) =
       [(''q2'', ''The sky is blue.''), (''q3'', ''a3''), (''q4'', ''a4''),
        (''q5'', ''The sky is blue.''), (''q6'', ''a6'')]"
    using history_bounded_fifo [where ?c1.0 = "(stub_env ''a1'', Query ''q1'')"
        and ?c2.0 = "(stub_env ''a2'', StreamQuery ''q2'' 6)"
        and ?c3.0 = "(stub_env ''a3'', Query ''q3'')"
        and ?c4.0 = "(stub_env ''a4'', Query ''q4'')"
        and ?c5.0 = "(stub_env ''a5'', StreamQuery ''q5'' 6)"
        and ?c6.0 = "(stub_env ''a6'', Query ''q6'')"
        and ?r1.0 = "result_of (stub_env ''a1'') ''q1'' [sky_chunk] ''a1''"
        and ?r2.0 = "result_of (stub_env ''a2'') ''q2'' [sky_chunk] ''The sky is blue.''"
        and ?r3.0 = "result_of (stub_env ''a3'') ''q3'' [sky_chunk] ''a3''"
        and ?r4.0 = "result_of (stub_env ''a4'') ''q4'' [sky_chunk] ''a4''"
        and ?r5.0 = "result_of (stub_env ''a5'') ''q5'' [sky_chunk] ''The sky is blue.''"
        and ?r6.0 = "result_of (stub_env ''a6'') ''q6'' [sky_chunk] ''a6''"
        and store = "()" and k = 4, THEN conjunct2, THEN conjunct2, THEN conjunct2,
        THEN conjunct2, THEN conjunct2]
    by (simp only: call_result_query_stub call_result_stream_stub a asked.simps six_calls_def
          simp_thms)
  moreover have "length (conversationHistory (run six_calls (newPipeline () 4))) \<le> 5"
    by (rule history_bounded_fifo [THEN conjunct1])
  moreover have "Return (result_of (stub_env ''a2'') ''q2'' [sky_chunk] ''The sky is blue.'')
       \<in> set (fst (streamQuery (stub_env ''a2'') ''q2'' 6 (newPipeline () 4)))"
    by (simp add: stream_stub)
  moreover have "conversationHistory (snd (snd (streamQuery (stub_env ''a2'') ''q2'' 6
                   (newPipeline () 4)))) = [(''q2'', ''The sky is blue.'')]"
    by (simp add: stream_stub remember_def newPipeline_def)
  ultimately show ?thesis
    by simp
qed

section \<open>Adding documents\<close>

text \<open>
  While the embeddings succeed, the loop goes on: a batch is added chunk by chunk, with no
  error and nothing on the console, and every chunk id is then a key of the store.
\<close>

lemma addDocuments_with_prefix:
  assumes "\<forall>x\<in>set before. \<exists>e. embedFn (content x) = Inr e"
  shows "addDocuments_with embedFn (before @ rest) docs =
           addDocuments_with embedFn rest (fst (snd (addDocuments_with embedFn before docs)))
         \<and> fst (addDocuments_with embedFn before docs) = Inr ()
         \<and> snd (snd (addDocuments_with embedFn before docs)) = []
         \<and> fst ` set (fst (snd (addDocuments_with embedFn before docs)))
             = fst ` set docs \<union> id' ` set before"
  using assms
proof (induction before arbitrary: docs)
  case Nil
  show ?case by simp
next
  case (Cons x xs)
  then obtain e where e: "embedFn (content x) = Inr e"
    by auto
  have "\<forall>x\<in>set xs. \<exists>e. embedFn (content x) = Inr e"
    using Cons.prems by simp
  from Cons.IH [OF this] show ?case
    using e by (auto simp: map_set_def dom_update)
qed

text \<open>
  C8, as the code has it. When the embedding computation fails for a chunk, \<open>addDocuments\<close>
  stops there: the store is what adding the chunks before it made it, so those stay
  committed and neither the failing chunk nor any chunk after it is inserted. The error
  thrown is \<open>Failed to add chunk:\<close> with the cause; the id of the failing chunk is written
  to the console, not into the error.
\<close>

theorem addDocuments_stops_at_failure:
  assumes "\<forall>x\<in>set before. \<exists>e. embedFn (content x) = Inr e"
    and "embedFn (content c) = Inl message"
  shows "addDocuments_with embedFn (before @ c # after) docs =
           (Inl (''Failed to add chunk: '' @ message),
            fst (snd (addDocuments_with embedFn before docs)),
            [''Error adding chunk '' @ id' c @ '':''])
         \<and> addDocuments_with embedFn before docs =
             (Inr (), fst (snd (addDocuments_with embedFn before docs)), [])
         \<and> fst ` set (fst (snd (addDocuments_with embedFn before docs)))
             = fst ` set docs \<union> id' ` set before"
proof -
  note p = addDocuments_with_prefix [OF assms(1), of "c # after" docs]
  have "addDocuments_with embedFn before docs =
          (Inr (), fst (snd (addDocuments_with embedFn before docs)), [])"
    using p by (simp add: prod_eq_iff)
  moreover have "addDocuments_with embedFn (before @ c # after) docs =
           (Inl (''Failed to add chunk: '' @ message),
            fst (snd (addDocuments_with embedFn before docs)),
            [''Error adding chunk '' @ id' c @ '':''])"
    using p assms(2) by simp
  ultimately show ?thesis
    using p by simp
qed

text \<open>A batch of three chunks whose second one fails.\<close>

theorem addDocuments_stops_at_failure_witness:
  "flaky_embedding (content chunk_a) = Inr (createSimpleEmbedding ''a'')
   \<and> flaky_embedding (content chunk_bad) = Inl ''boom''
   \<and> addDocuments_with flaky_embedding [chunk_a, chunk_bad, chunk_b] [] =
       (Inl ''Failed to add chunk: boom'',
        [(''doc1_chunk_0'', stored chunk_a (createSimpleEmbedding ''a''))],
        [''Error adding chunk doc1_chunk_1:''])"
proof -
  have a: "flaky_embedding (content chunk_a) = Inr (createSimpleEmbedding ''a'')"
    by (simp add: flaky_embedding_def chunk_a_def)
  have b: "flaky_embedding (content chunk_bad) = Inl ''boom''"
    by (simp add: flaky_embedding_def chunk_bad_def)
  have h: "\<forall>x\<in>set [chunk_a]. \<exists>e. flaky_embedding (content x) = Inr e"
    using a by simp
  have s: "fst (snd (addDocuments_with flaky_embedding [chunk_a] [])) =
             [(''doc1_chunk_0'', stored chunk_a (createSimpleEmbedding ''a''))]"
    using a by (simp add: map_set_def stored_def chunk_a_def)
  show ?thesis
    using addDocuments_stops_at_failure [OF h b, of "[chunk_b]" "[]"] a b s
    by (simp add: chunk_bad_def)
qed

text \<open>
  C8 as the specification states it fails: in the same batch the third chunk, whose
  embedding can be computed, is not inserted either, so more than the failing chunk's
  insertion is aborted; and the error thrown does not name the failing chunk.
\<close>

theorem addDocuments_counterexample:
  "flaky_embedding (content chunk_b) = Inr (createSimpleEmbedding ''b'')
   \<and> fst (addDocuments_with flaky_embedding [chunk_a, chunk_bad, chunk_b] [])
       = Inl ''Failed to add chunk: boom''
   \<and> map fst (fst (snd (addDocuments_with flaky_embedding [chunk_a, chunk_bad, chunk_b] [])))
       = [''doc1_chunk_0'']"
  by (simp add: flaky_embedding_def chunk_a_def chunk_bad_def chunk_b_def map_set_def)

section \<open>Similarity search\<close>

subsection \<open>The sort\<close>

lemma is_num_iff: "is_num a \<longleftrightarrow> (\<exists>r. a = Num r)"
  by (cases a) (simp_all add: is_num_def)

lemma mset_insert_by: "mset (insert_by cmp x ys) = add_mset x (mset ys)"
  by (induction ys) simp_all

lemma mset_js_sort: "mset (js_sort cmp xs) = mset xs"
  unfolding js_sort_def by (induction xs) (simp_all add: mset_insert_by)

lemma set_js_sort: "set (js_sort cmp xs) = set xs"
  by (metis mset_js_sort set_mset_mset)

lemma length_js_sort: "length (js_sort cmp xs) = length xs"
  by (metis mset_js_sort size_mset)

lemma by_similarity_gt:
  "is_num (snd x) \<Longrightarrow> is_num (snd y) \<Longrightarrow>
     num_gt (by_similarity x y) (Num 0) \<longleftrightarrow> num_gt (snd y) (snd x)"
  by (auto simp: is_num_iff by_similarity_def num_sub_def)

lemma num_gt_trans_finite:
  "is_num a \<Longrightarrow> is_num b \<Longrightarrow> is_num c \<Longrightarrow> \<not> num_gt b a \<Longrightarrow> \<not> num_gt c b \<Longrightarrow> \<not> num_gt c a"
  by (auto simp: is_num_iff)

lemma descending_insert_by:
  assumes "is_num (snd x)" and "\<forall>y\<in>set ys. is_num (snd y)" and "descending ys"
  shows "descending (insert_by by_similarity x ys)"
  using assms
proof (induction ys)
  case Nil
  show ?case by (simp add: descending_def)
next
  case (Cons y ys)
  have fin: "is_num (snd y)" "\<forall>z\<in>set ys. is_num (snd z)"
    using Cons.prems by simp_all
  have tail: "descending ys" and head: "\<forall>z\<in>set ys. \<not> num_gt (snd z) (snd y)"
    using Cons.prems by (simp_all add: descending_def)
  show ?case
  proof (cases "num_gt (by_similarity x y) (Num 0)")
    case True
    then have yx: "num_gt (snd y) (snd x)"
      using by_similarity_gt Cons.prems(1) fin(1) by blast
    then have xy: "\<not> num_gt (snd x) (snd y)"
      using Cons.prems(1) fin(1) by (auto simp: is_num_iff)
    have "descending (insert_by by_similarity x ys)"
      using Cons.IH Cons.prems(1) fin(2) tail by blast
    moreover have "\<forall>z\<in>set (insert_by by_similarity x ys). \<not> num_gt (snd z) (snd y)"
      using head xy by (metis insert_iff mset_insert_by set_mset_add_mset_insert set_mset_mset)
    ultimately show ?thesis
      using True by (simp add: descending_def)
  next
    case False
    then have yx: "\<not> num_gt (snd y) (snd x)"
      using by_similarity_gt Cons.prems(1) fin(1) by blast
    have "\<forall>z\<in>set ys. \<not> num_gt (snd z) (snd x)"
      using head yx fin Cons.prems(1) num_gt_trans_finite by blast
    then show ?thesis
      using False yx Cons.prems(3) by (simp add: descending_def)
  qed
qed

lemma descending_js_sort:
  "\<forall>y\<in>set xs. is_num (snd y) \<Longrightarrow> descending (js_sort by_similarity xs)"
proof (induction xs)
  case Nil
  show ?case by (simp add: js_sort_def descending_def)
next
  case (Cons x xs)
  have "descending (js_sort by_similarity xs)"
    using Cons by simp
  moreover have "\<forall>y\<in>set (js_sort by_similarity xs). is_num (snd y)"
    using Cons.prems by (simp add: set_js_sort)
  ultimately have "descending (insert_by by_similarity x (js_sort by_similarity xs))"
    using Cons.prems descending_insert_by by simp
  then show ?case
    by (simp add: js_sort_def)
qed

text \<open>In a descending list of finite scores, dropping the irrelevant items and keeping the first n commute.\<close>

lemma relevant_below:
  "is_num (snd a) \<Longrightarrow> is_num (snd b) \<Longrightarrow> \<not> num_gt (snd b) (snd a) \<Longrightarrow> \<not> relevant a \<Longrightarrow> \<not> relevant b"
  by (auto simp: is_num_iff relevant_def)

lemma filter_take_descending:
  assumes "descending xs" and "\<forall>y\<in>set xs. is_num (snd y)"
  shows "filter relevant (take n xs) = take n (filter relevant xs)"
  using assms
proof (induction xs arbitrary: n)
  case Nil
  show ?case by simp
next
  case (Cons x xs)
  have tail: "descending xs" "\<forall>y\<in>set xs. is_num (snd y)"
    using Cons.prems by (simp_all add: descending_def)
  show ?case
  proof (cases n)
    case 0
    then show ?thesis by simp
  next
    case (Suc m)
    show ?thesis
    proof (cases "relevant x")
      case True
      then show ?thesis
        using Suc Cons.IH [OF tail] by simp
    next
      case False
      have "\<forall>y\<in>set xs. \<not> num_gt (snd y) (snd x)"
        using Cons.prems(1) by (simp add: descending_def)
      moreover have "is_num (snd x)"
        using Cons.prems(2) by simp
      ultimately have "\<forall>y\<in>set xs. \<not> relevant y"
        using False tail(2) relevant_below by blast
      then have "filter relevant xs = []" and "filter relevant (take m xs) = []"
        by (auto simp: filter_empty_conv dest: in_set_takeD)
      then show ?thesis
        using False Suc by simp
    qed
  qed
qed


subsection \<open>The results\<close>

lemma slice0_nonneg: "0 \<le> k \<Longrightarrow> slice0 k xs = take (nat k) xs"
  by (simp add: slice0_def)

lemma similaritySearch_ranked: "similaritySearch docs q k = map fst (ranked docs q k)"
  by (simp add: similaritySearch_def ranked_def similarities_def js_sort_def slice0_def)

lemma finite_scores_sorted:
  "finite_scores docs q \<Longrightarrow> \<forall>y\<in>set (js_sort by_similarity (similarities docs q)). is_num (snd y)"
  by (simp add: finite_scores_def list_all_iff set_js_sort)

lemma length_filter_js_sort:
  "length (filter P (js_sort cmp xs)) = length (filter P xs)"
proof -
  have "mset (filter P (js_sort cmp xs)) = mset (filter P xs)"
    by (simp add: mset_js_sort)
  then show ?thesis
    by (metis size_mset)
qed

lemma descending_prefix_not_below:
  assumes "descending xs" and "\<forall>y\<in>set xs. is_num (snd y)" and "i < length xs"
  shows "filter (\<lambda>other. \<not> num_gt (snd (xs ! i)) (snd other)) (take (Suc i) xs) = take (Suc i) xs"
proof -
  have "\<not> num_gt (snd (xs ! i)) (snd (xs ! j))" if "j \<le> i" for j
  proof (cases "j = i")
    case True
    have "is_num (snd (xs ! i))"
      using assms(2,3) by simp
    then show ?thesis
      using True by (auto simp: is_num_iff)
  next
    case False
    then have "j < i"
      using that by simp
    then show ?thesis
      using assms(1,3) by (simp add: descending_def sorted_wrt_iff_nth_less)
  qed
  then have le: "\<And>j. j \<le> i \<Longrightarrow> \<not> num_gt (snd (xs ! i)) (snd (xs ! j))" .
  have "\<forall>other\<in>set (take (Suc i) xs). \<not> num_gt (snd (xs ! i)) (snd other)"
  proof
    fix other
    assume "other \<in> set (take (Suc i) xs)"
    then obtain j where j: "j < length (take (Suc i) xs)" "take (Suc i) xs ! j = other"
      by (auto simp: in_set_conv_nth)
    then have "j \<le> i" and "other = xs ! j"
      by simp_all
    then show "\<not> num_gt (snd (xs ! i)) (snd other)"
      using le by simp
  qed
  then show ?thesis
    by (simp add: filter_id_conv)
qed

text \<open>
  \<open>similaritySearch\<close> sorts the scored entries, keeps the first \<open>k\<close>, and then drops those
  with a score of at most 0.1. When every score is finite and \<open>k \<ge> 0\<close>, that is the same
  as dropping them first and keeping the first \<open>k\<close> of the rest; and then every stored
  entry whose score exceeds 0.1 and that has at most \<open>k\<close> entries (itself included) with
  a score not below its own is among the results.
\<close>

theorem similaritySearch_threshold_before_truncation:
  assumes "finite_scores docs q" and "0 \<le> k"
  shows "similaritySearch docs q k =
           map fst (take (nat k) (filter relevant (js_sort by_similarity (similarities docs q))))
         \<and> (\<forall>item\<in>set (similarities docs q).
               relevant item
               \<longrightarrow> length (filter (\<lambda>other. \<not> num_gt (snd item) (snd other))
                             (similarities docs q)) \<le> nat k
               \<longrightarrow> fst item \<in> set (similaritySearch docs q k))"
proof
  let ?S = "js_sort by_similarity (similarities docs q)"
  have fin: "\<forall>y\<in>set ?S. is_num (snd y)"
    using assms(1) by (rule finite_scores_sorted)
  have desc: "descending ?S"
    using assms(1) by (simp add: descending_js_sort finite_scores_def list_all_iff)
  have ranked: "ranked docs q k = filter relevant (take (nat k) ?S)"
    using assms(2) by (simp add: ranked_def slice0_nonneg)
  show "similaritySearch docs q k = map fst (take (nat k) (filter relevant ?S))"
    using filter_take_descending [OF desc fin] ranked by (simp add: similaritySearch_ranked)
  show "\<forall>item\<in>set (similarities docs q).
          relevant item
          \<longrightarrow> length (filter (\<lambda>other. \<not> num_gt (snd item) (snd other))
                        (similarities docs q)) \<le> nat k
          \<longrightarrow> fst item \<in> set (similaritySearch docs q k)"
  proof (intro ballI impI)
    fix item
    assume item: "item \<in> set (similarities docs q)" and rel: "relevant item"
      and rank: "length (filter (\<lambda>other. \<not> num_gt (snd item) (snd other))
                           (similarities docs q)) \<le> nat k"
    from item obtain i where i: "i < length ?S" "?S ! i = item"
      by (metis in_set_conv_nth set_js_sort)
    have "Suc i = length (take (Suc i) ?S)"
      using i(1) by simp
    also have "\<dots> = length (filter (\<lambda>other. \<not> num_gt (snd item) (snd other)) (take (Suc i) ?S))"
      using descending_prefix_not_below [OF desc fin i(1)] i(2) by simp
    also have "\<dots> \<le> length (filter (\<lambda>other. \<not> num_gt (snd item) (snd other)) ?S)"
      by (metis append_take_drop_id filter_append length_append le_add1)
    also have "\<dots> = length (filter (\<lambda>other. \<not> num_gt (snd item) (snd other)) (similarities docs q))"
      by (rule length_filter_js_sort)
    finally have "i < nat k"
      using rank by simp
    then have "item \<in> set (take (nat k) ?S)"
      using i by (auto simp: in_set_conv_nth)
    then have "item \<in> set (ranked docs q k)"
      using rel ranked by simp
    then show "fst item \<in> set (similaritySearch docs q k)"
      by (simp add: similaritySearch_ranked)
  qed
qed

text \<open>
  C3, as the code has it. \<open>similaritySearch\<close> returns at most \<open>k\<close> chunks when \<open>k \<ge> 0\<close>,
  each the chunk of a stored entry whose score exceeds 0.1; and when every score is
  finite, they come in an order in which no chunk has a higher score than one before it.
  Equal scores may follow each other.
\<close>

theorem similaritySearch_bounded_descending:
  "similaritySearch docs q k = map fst (ranked docs q k)
   \<and> (0 \<le> k \<longrightarrow> length (similaritySearch docs q k) \<le> nat k)
   \<and> (\<forall>item\<in>set (ranked docs q k). item \<in> set (similarities docs q) \<and> relevant item)
   \<and> (finite_scores docs q \<longrightarrow> descending (ranked docs q k))"
proof (intro conjI impI)
  let ?S = "js_sort by_similarity (similarities docs q)"
  show "similaritySearch docs q k = map fst (ranked docs q k)"
    by (rule similaritySearch_ranked)
  show "length (similaritySearch docs q k) \<le> nat k" if "0 \<le> k"
  proof -
    have "length (ranked docs q k) \<le> length (take (nat k) ?S)"
      unfolding ranked_def slice0_nonneg [OF that] by (rule length_filter_le)
    then show ?thesis
      by (simp add: similaritySearch_ranked)
  qed
  show "\<forall>item\<in>set (ranked docs q k). item \<in> set (similarities docs q) \<and> relevant item"
    unfolding ranked_def slice0_def using set_js_sort [of by_similarity "similarities docs q"]
    by (auto dest: in_set_takeD)
  show "descending (ranked docs q k)" if "finite_scores docs q"
  proof -
    have "descending ?S"
      using that by (simp add: descending_js_sort finite_scores_def list_all_iff)
    then show ?thesis
      unfolding ranked_def slice0_def descending_def by (simp add: sorted_wrt_filter)
  qed
qed

subsection \<open>Finite scores\<close>

text \<open>
  Only the division by \<open>text.length\<close> can leave the real numbers, and only for the empty
  text: the embedding of a non-empty text is a vector of 384 finite numbers, and the
  cosine similarity of two such vectors is finite. So every score is finite when the
  query and the stored contents are non-empty and the stored embeddings are those of the
  contents, as \<open>addDocuments\<close> stores them.
\<close>

lemma finite_vector_update:
  "finite_vector v \<Longrightarrow> is_num x \<Longrightarrow> finite_vector (v[i := x])"
  unfolding finite_vector_def list_all_iff
  using set_update_subset_insert [of v i x] by auto

lemma is_num_div: "b \<noteq> 0 \<Longrightarrow> is_num (num_div (Num a) (Num b))"
  by (simp add: is_num_def)

lemma foldl_invariant:
  assumes "P s" and "\<And>s x. P s \<Longrightarrow> x \<in> set xs \<Longrightarrow> P (f s x)"
  shows "P (foldl f s xs)"
  using assms by (induction xs arbitrary: s) simp_all

lemma split_ws_from_nonempty: "split_ws_from b s \<noteq> []"
  by (induction s arbitrary: b) simp_all

lemma createSimpleEmbedding_finite:
  assumes "t \<noteq> []"
  shows "finite_vector (createSimpleEmbedding t) \<and> length (createSimpleEmbedding t) = 384"
proof -
  let ?P = "\<lambda>e. finite_vector e \<and> length e = 384"
  have len: "real (length t) \<noteq> 0"
    using assms by simp
  have d: "is_num (num_div (Num a) (Num (real (length t))))" for a
    using len by (rule is_num_div)
  have upd: "?P (e[i := num_div (Num a) (Num (real (length t)))])" if "?P e" for e i a
    using that finite_vector_update [OF _ d] by simp
  define e1 where "e1 = foldl (\<lambda>e i. e[i := num_div (Num (real (occurrences (toLowerCase t)
                                                           (chars ! i)))) (Num (real (length t)))])
                 (replicate 384 (Num 0)) [0..<length chars]"
  have p0: "?P (replicate 384 (Num 0))"
    by (simp add: finite_vector_def list_all_iff is_num_def)
  have p1: "?P e1"
    unfolding e1_def using p0 by (rule foldl_invariant) (rule upd)
  define step where "step = (\<lambda>(e, idx) (bigram :: string, count :: nat).
                             if idx < length e
                             then (e[idx := num_div (Num (real count)) (Num (real (length t)))], idx + 1)
                             else (e, idx))"
  define e2 where "e2 = fst (foldl step (e1, length chars) (take 100 (bigramCounts t)))"
  have s2: "?P (fst (step s x))" if "?P (fst s)" for s x
    using that upd [of "fst s"] by (cases s; cases x) (simp add: step_def del: num_div.simps)
  have "?P (fst (foldl step (e1, length chars) (take 100 (bigramCounts t))))"
    by (rule foldl_invariant [where P = "\<lambda>s. ?P (fst s)"]) (simp_all add: p1 s2)
  then have p2: "?P e2"
    by (simp add: e2_def)
  define words where "words = split_ws t"
  have w: "real (length words) \<noteq> 0"
    by (simp add: words_def split_ws_def split_ws_from_nonempty)
  have "is_num (or_zero (num_div (Num (real (sum_list (map length words))))
                                     (Num (real (length words)))))"
    using w by (simp add: or_zero_def is_num_def)
  then obtain r where r: "or_zero (num_div (Num (real (sum_list (map length words))))
                                     (Num (real (length words)))) = Num r"
    by (auto simp: is_num_iff)
  define e3 where "e3 = e2[300 := num_div (or_zero (num_div (Num (real (sum_list (map length words))))
                                     (Num (real (length words))))) (Num 20)]"
  have "is_num (num_div (Num r) (Num 20))"
    by (rule is_num_div) simp
  then have p3: "?P e3"
    unfolding e3_def r using p2 finite_vector_update by simp
  define e4 where "e4 = e3[301 := num_div (Num (real (length words))) (Num (real (length t)))]"
  have p4: "?P e4"
    unfolding e4_def using p3 by (rule upd)
  have p5: "?P (foldl (\<lambda>e i. e[302 + i := num_div (Num (real (occurrences t
                                                                 (punctuation ! i)))) (Num (real (length t)))])
                 e4 (takeWhile (\<lambda>i. 302 + i < length e4) [0..<length punctuation]))"
    using p4 by (rule foldl_invariant) (rule upd)
  have "createSimpleEmbedding t = foldl (\<lambda>e i. e[302 + i := num_div (Num (real (occurrences t
                                                                 (punctuation ! i)))) (Num (real (length t)))])
                 e4 (takeWhile (\<lambda>i. 302 + i < length e4) [0..<length punctuation])"
    by (simp add: createSimpleEmbedding_def Let_def e4_def e3_def e2_def e1_def step_def words_def
          del: num_div.simps)
  then show ?thesis
    using p5 by simp
qed


lemma sum_squares_finite:
  assumes "finite_vector v"
  shows "\<exists>r. sum_squares v = Num r \<and> 0 \<le> r"
  unfolding sum_squares_def
proof (rule foldl_invariant [where P = "\<lambda>s. \<exists>r. s = Num r \<and> 0 \<le> r"])
  show "\<exists>r. Num 0 = Num r \<and> 0 \<le> r"
    by simp
next
  fix s x
  assume "\<exists>r. s = Num r \<and> 0 \<le> r" and "x \<in> set v"
  moreover from this assms obtain y where "x = Num y"
    by (auto simp: finite_vector_def list_all_iff is_num_iff)
  ultimately show "\<exists>r. num_add s (num_mul x x) = Num r \<and> 0 \<le> r"
    by auto
qed

lemma dot_product_finite:
  assumes "finite_vector a" and "finite_vector b" and "length a \<le> length b"
  shows "is_num (dot_product a b)"
  unfolding dot_product_def
proof (rule foldl_invariant [where P = is_num])
  show "is_num (Num 0)"
    by (simp add: is_num_def)
next
  fix s x
  assume s: "is_num s" and x: "x \<in> set (zip a [0..<length a])"
  obtain val i where vi: "x = (val, i)"
    by (cases x)
  have "val \<in> set a" and "i < length a"
    using x vi by (auto dest: set_zip_leftD set_zip_rightD)
  then have "is_num val" and "is_num (at_index b i)"
    using assms by (auto simp: finite_vector_def list_all_iff at_index_def)
  then show "is_num (case x of (val, i) \<Rightarrow> num_add s (num_mul val (at_index b i)))"
    using s vi by (auto simp: is_num_iff)
qed

lemma cosineSimilarity_finite:
  assumes "finite_vector a" and "finite_vector b" and "length a \<le> length b"
  shows "is_num (cosineSimilarity a b)"
proof -
  obtain d where d: "dot_product a b = Num d"
    using dot_product_finite [OF assms] by (auto simp: is_num_iff)
  obtain ra where ra: "sum_squares a = Num ra" "0 \<le> ra"
    using sum_squares_finite [OF assms(1)] by auto
  obtain rb where rb: "sum_squares b = Num rb" "0 \<le> rb"
    using sum_squares_finite [OF assms(2)] by auto
  show ?thesis
    using d ra rb by (simp add: cosineSimilarity_def is_zero_def is_num_def)
qed

lemma finite_scores_nonempty:
  assumes "q \<noteq> []"
    and "\<forall>entry\<in>set docs. content (snd entry) \<noteq> []
            \<and> embedding (snd entry) = createSimpleEmbedding (content (snd entry))"
  shows "finite_scores docs q"
proof -
  have "is_num (cosineSimilarity (createSimpleEmbedding q) (embedding (snd entry)))"
    if "entry \<in> set docs" for entry
  proof -
    have "content (snd entry) \<noteq> []"
      and e: "embedding (snd entry) = createSimpleEmbedding (content (snd entry))"
      using assms(2) that by simp_all
    then show ?thesis
      using createSimpleEmbedding_finite [of q]
        createSimpleEmbedding_finite [of "content (snd entry)"] assms(1)
      by (simp add: cosineSimilarity_finite)
  qed
  then show ?thesis
    by (simp add: finite_scores_def similarities_def list_all_iff)
qed

text \<open>\<open>addDocuments\<close> and \<open>delete\<close> keep the stored embeddings those of the contents.\<close>

lemma set_map_set: "set (map_set k v m) \<subseteq> insert (k, v) (set m)"
  unfolding map_set_def by (induction m) auto

lemma addDocuments_consistent:
  "consistent docs \<Longrightarrow> consistent (fst (snd (addDocuments chunks docs)))"
  unfolding addDocuments_def
proof (induction chunks arbitrary: docs)
  case Nil
  then show ?case by simp
next
  case (Cons c cs)
  let ?docs = "map_set (id' c) (stored c (createSimpleEmbedding (content c))) docs"
  have "consistent ?docs"
    using Cons.prems set_map_set [of "id' c" "stored c (createSimpleEmbedding (content c))" docs]
    by (auto simp: consistent_def stored_def)
  then show ?case
    using Cons.IH by simp
qed

lemma delete_consistent: "consistent docs \<Longrightarrow> consistent (delete D docs)"
  by (simp add: consistent_def delete_def foldl_map_delete)

subsection \<open>Cosine similarity\<close>

text \<open>
  The similarity of a vector with itself is 1 when the sum of its squares is finite and
  positive, and a vector whose squares sum to 0 has similarity 0 with every vector.
\<close>

lemma self_similarity_dot:
  "n \<le> length v \<Longrightarrow>
     foldl (\<lambda>sum (val, i). num_add sum (num_mul val (at_index v i))) acc (zip (take n v) [0..<n])
     = foldl (\<lambda>sum val. num_add sum (num_mul val val)) acc (take n v)"
proof (induction n)
  case 0
  show ?case by simp
next
  case (Suc n)
  then have n: "n < length v"
    by simp
  have "zip (take (Suc n) v) [0..<Suc n] = zip (take n v) [0..<n] @ [(v ! n, n)]"
    using n by (simp add: take_Suc_conv_app_nth)
  then show ?case
    using Suc n by (simp add: take_Suc_conv_app_nth at_index_def)
qed

lemma dot_product_self: "dot_product v v = sum_squares v"
  using self_similarity_dot [of "length v" v "Num 0"] by (simp add: dot_product_def sum_squares_def)

lemma cosineSimilarity_self:
  assumes "sum_squares v = Num r" and "0 < r"
  shows "cosineSimilarity v v = Num 1"
  using assms by (simp add: cosineSimilarity_def dot_product_self is_zero_def)

lemma cosineSimilarity_zero:
  "sum_squares a = Num 0 \<or> sum_squares b = Num 0 \<Longrightarrow> cosineSimilarity a b = Num 0"
  by (auto simp: cosineSimilarity_def is_zero_def)

subsection \<open>Three small stores\<close>

text \<open>The sums that \<open>cosineSimilarity\<close> forms for the texts \<open>a\<close>, \<open>b\<close> and the empty text.\<close>

lemma squares_a: "sum_squares (createSimpleEmbedding ''a'') = Num (801 / 400)"
  by code_simp

lemma squares_b: "sum_squares (createSimpleEmbedding ''b'') = Num (801 / 400)"
  by code_simp

lemma squares_empty: "sum_squares (createSimpleEmbedding '''') = NaN"
  by code_simp

lemma dot_a_a: "dot_product (createSimpleEmbedding ''a'') (createSimpleEmbedding ''a'') = Num (801 / 400)"
  by code_simp

lemma dot_a_b: "dot_product (createSimpleEmbedding ''a'') (createSimpleEmbedding ''b'') = Num (401 / 400)"
  by code_simp

lemma dot_a_empty: "dot_product (createSimpleEmbedding ''a'') (createSimpleEmbedding '''') = NaN"
  by code_simp

lemma cosine_a_a: "cosineSimilarity (createSimpleEmbedding ''a'') (createSimpleEmbedding ''a'') = Num 1"
  by (simp add: cosineSimilarity_def squares_a dot_a_a is_zero_def)

lemma cosine_a_b:
  "cosineSimilarity (createSimpleEmbedding ''a'') (createSimpleEmbedding ''b'') = Num (401 / 801)"
  by (simp add: cosineSimilarity_def squares_a squares_b dot_a_b is_zero_def)

lemma cosine_a_empty:
  "cosineSimilarity (createSimpleEmbedding ''a'') (createSimpleEmbedding '''') = NaN"
  by (simp add: cosineSimilarity_def squares_a squares_empty dot_a_empty is_zero_def)

lemma chunk_of_stored: "chunk_of (stored c e) = c"
  by (simp add: chunk_of_def stored_def)

lemma embedding_stored: "embedding (stored c e) = e"
  by (simp add: stored_def)

lemma ab_docs_eq:
  "ab_docs = [(''doc1_chunk_0'', stored chunk_a (createSimpleEmbedding ''a'')),
              (''doc1_chunk_2'', stored chunk_b (createSimpleEmbedding ''b''))]"
  by (simp add: ab_docs_def addDocuments_def map_set_def chunk_a_def chunk_b_def)

lemma similarities_ab:
  "similarities ab_docs ''a'' = [(chunk_a, Num 1), (chunk_b, Num (401 / 801))]"
  by (simp add: similarities_def ab_docs_eq chunk_of_stored embedding_stored cosine_a_a cosine_a_b)

lemma sorted_ab:
  "js_sort by_similarity (similarities ab_docs ''a'') = [(chunk_a, Num 1), (chunk_b, Num (401 / 801))]"
  by (simp add: similarities_ab js_sort_def by_similarity_def num_sub_def)

text \<open>The best of two stored chunks, for \<open>k = 1\<close>.\<close>

theorem similaritySearch_threshold_before_truncation_witness:
  "finite_scores ab_docs ''a''
   \<and> similarities ab_docs ''a'' = [(chunk_a, Num 1), (chunk_b, Num (401 / 801))]
   \<and> similaritySearch ab_docs ''a'' 1 = [chunk_a]"
proof -
  have f: "finite_scores ab_docs ''a''"
    by (simp add: finite_scores_def similarities_ab is_num_def)
  have k: "(0::int) \<le> 1"
    by simp
  have "similaritySearch ab_docs ''a'' 1 = [chunk_a]"
    using similaritySearch_threshold_before_truncation [OF f k]
    by (simp add: sorted_ab relevant_def)
  then show ?thesis
    using f similarities_ab by simp
qed


text \<open>Both chunks, best first, for \<open>k = 2\<close>.\<close>

theorem similaritySearch_bounded_descending_witness:
  "finite_scores ab_docs ''a''
   \<and> ranked ab_docs ''a'' 2 = [(chunk_a, Num 1), (chunk_b, Num (401 / 801))]
   \<and> similaritySearch ab_docs ''a'' 2 = [chunk_a, chunk_b]
   \<and> descending (ranked ab_docs ''a'' 2)"
proof -
  have f: "finite_scores ab_docs ''a''"
    by (simp add: finite_scores_def similarities_ab is_num_def)
  have k: "(0::int) \<le> 2"
    by simp
  have r: "ranked ab_docs ''a'' 2 = [(chunk_a, Num 1), (chunk_b, Num (401 / 801))]"
    by (simp add: ranked_def sorted_ab slice0_def relevant_def)
  show ?thesis
    using similaritySearch_bounded_descending [of ab_docs "''a''" 2] f r by simp
qed

lemma tie_docs_eq:
  "tie_docs = [(''doc1_chunk_0'', stored chunk_a (createSimpleEmbedding ''a'')),
               (''doc2_chunk_0'', stored chunk_a2 (createSimpleEmbedding ''a''))]"
  by (simp add: tie_docs_def addDocuments_def map_set_def chunk_a_def chunk_a2_def)

text \<open>
  C3 as the specification states it fails: two stored chunks with the same content have
  the same score, both are returned, and the returned sequence is not strictly
  descending. And \<open>k\<close> is any number: for \<open>k = -1\<close> the slice drops the last entry only,
  and one chunk is returned.
\<close>

theorem similaritySearch_ties_counterexample:
  "ranked tie_docs ''a'' 2 = [(chunk_a, Num 1), (chunk_a2, Num 1)]
   \<and> similaritySearch tie_docs ''a'' 2 = [chunk_a, chunk_a2]
   \<and> chunk_a \<noteq> chunk_a2
   \<and> \<not> sorted_wrt (\<lambda>a b. num_gt (snd a) (snd b)) (ranked tie_docs ''a'' 2)
   \<and> similaritySearch tie_docs ''a'' (- 1) = [chunk_a]"
proof -
  have s: "similarities tie_docs ''a'' = [(chunk_a, Num 1), (chunk_a2, Num 1)]"
    by (simp add: similarities_def tie_docs_eq chunk_of_stored embedding_stored cosine_a_a)
  have r: "ranked tie_docs ''a'' 2 = [(chunk_a, Num 1), (chunk_a2, Num 1)]"
    by (simp add: ranked_def s js_sort_def by_similarity_def num_sub_def slice0_def relevant_def)
  have n: "ranked tie_docs ''a'' (- 1) = [(chunk_a, Num 1)]"
    by (simp add: ranked_def s js_sort_def by_similarity_def num_sub_def slice0_def relevant_def)
  have "chunk_a \<noteq> chunk_a2"
    by (simp add: chunk_a_def chunk_a2_def)
  then show ?thesis
    using r n by (simp add: similaritySearch_ranked)
qed

lemma nan_docs_eq:
  "nan_docs = [(''doc0_chunk_0'', stored chunk_empty (createSimpleEmbedding [])),
               (''doc1_chunk_0'', stored chunk_a (createSimpleEmbedding ''a''))]"
  by (simp add: nan_docs_def addDocuments_def map_set_def chunk_a_def chunk_empty_def)

text \<open>
  C1. The code does not do what the claim says for a store that holds a chunk with empty
  content. \<open>createSimpleEmbedding\<close> divides by \<open>text.length\<close> without a guard, so that
  chunk's embedding holds \<open>0/0 = NaN\<close> and its score is \<open>NaN\<close>. In a store of two entries
  the comparator then returns \<open>NaN\<close> whichever way it is called, which counts as equal,
  so the stable sort leaves the two entries in place. With \<open>k = 1\<close> the slice keeps the
  \<open>NaN\<close> entry, the filter drops it, and the result is empty, although the other entry
  has the score 1 and is the only one above 0.1. Dropping before truncating would
  return that entry.
\<close>

theorem similaritySearch_nan_failure:
  "similarities nan_docs ''a'' = [(chunk_empty, NaN), (chunk_a, Num 1)]
   \<and> relevant (chunk_a, Num 1) \<and> \<not> relevant (chunk_empty, NaN)
   \<and> similaritySearch nan_docs ''a'' 1 = []
   \<and> map fst (take 1 (filter relevant (js_sort by_similarity (similarities nan_docs ''a''))))
       = [chunk_a]"
proof -
  have s: "similarities nan_docs ''a'' = [(chunk_empty, NaN), (chunk_a, Num 1)]"
    by (simp add: similarities_def nan_docs_eq chunk_of_stored embedding_stored cosine_a_a
          cosine_a_empty)
  have j: "js_sort by_similarity (similarities nan_docs ''a'') = [(chunk_empty, NaN), (chunk_a, Num 1)]"
    by (simp add: s js_sort_def by_similarity_def num_sub_def)
  have "ranked nan_docs ''a'' 1 = []"
    by (simp add: ranked_def j slice0_def relevant_def)
  then show ?thesis
    using s j by (simp add: similaritySearch_ranked relevant_def)
qed

end
